theory Spec2Isabelle
  imports Main
begin

section \<open>JavaScript values used by the bot\<close>

text \<open>
  Thrown values.  \<open>Error\<close> is a plain \<open>new Error(msg)\<close>, \<open>CommandArgsError\<close> is the
  subclass declared in \<open>bot.ts\<close>, and \<open>NonError\<close> stands for a thrown value that is not an
  instance of \<open>Error\<close> (the test \<open>err instanceof Error\<close> of \<open>get_user_by_id\<close> separates
  the two).
\<close>

datatype js_error = Error string | CommandArgsError string | NonError string

fun instanceof_Error :: "js_error \<Rightarrow> bool" where
  "instanceof_Error (Error m) = True"
| "instanceof_Error (CommandArgsError m) = True"
| "instanceof_Error (NonError v) = False"

fun message :: "js_error \<Rightarrow> string" where
  "message (Error m) = m"
| "message (CommandArgsError m) = m"
| "message (NonError v) = v"

text \<open>\<open>`${err}`\<close>: an Error prints as its name, a colon and its message.\<close>

fun err_toString :: "js_error \<Rightarrow> string" where
  "err_toString (Error m) = ''Error: '' @ m"
| "err_toString (CommandArgsError m) = ''CommandArgsError: '' @ m"
| "err_toString (NonError v) = v"

text \<open>
  \<open>toString()\<close> and a template literal on an integral JavaScript number.  An integer of
  absolute value up to \<open>Number.MAX_SAFE_INTEGER\<close>, which is \<open>2^53 - 1\<close>, is a Number
  exactly and prints as its decimal digits.  Beyond that ECMAScript prints the shortest
  digits that identify the double, and exponent notation from \<open>10^21\<close> on: that rendering
  is the parameter \<open>unsafe\<close>.
\<close>

function digits :: "nat \<Rightarrow> string" where
  "digits n = (if n < 10 then [char_of (48 + n)]
               else digits (n div 10) @ [char_of (48 + n mod 10)])"
  by pat_completeness auto
termination
  by (relation "measure id") auto

declare digits.simps [simp del]

definition toString :: "(int \<Rightarrow> string) \<Rightarrow> int \<Rightarrow> string" where
  "toString unsafe i =
     (if \<bar>i\<bar> \<le> 9007199254740991
      then (if i < 0 then CHR ''-'' # digits (nat (- i)) else digits (nat i))
      else unsafe i)"

text \<open>\<open>String.prototype.includes\<close>: the argument occurs as a contiguous substring.\<close>

fun starts_with :: "string \<Rightarrow> string \<Rightarrow> bool" where
  "starts_with s [] = True"
| "starts_with [] (c # cs) = False"
| "starts_with (x # xs) (c # cs) = (x = c \<and> starts_with xs cs)"

fun str_includes :: "string \<Rightarrow> string \<Rightarrow> bool" where
  "str_includes [] sub = (sub = [])"
| "str_includes (x # xs) sub = (starts_with (x # xs) sub \<or> str_includes xs sub)"

text \<open>\<open>s.split(sep)\<close> for a one-character separator: every separator ends a token.\<close>

fun split_from :: "char \<Rightarrow> string \<Rightarrow> string \<Rightarrow> string list" where
  "split_from sep cur [] = [rev cur]"
| "split_from sep cur (c # cs) =
     (if c = sep then rev cur # split_from sep [] cs else split_from sep (c # cur) cs)"

definition split :: "string \<Rightarrow> char \<Rightarrow> string list" where
  "split s sep = split_from sep [] s"


section \<open>lldap.ts: AuthManager\<close>

text \<open>
  The field \<open>token: string | null\<close>.  \<open>login\<close> stores \<open>data.token\<close> of an untyped JSON
  body, which is \<open>undefined\<close> when the body has no such member.  The field
  \<open>login_endpoint\<close> is the URL that the constructor computes.
\<close>

datatype js_token = Null | Undefined | Str string

record lldap_config =
  url_base :: string
  lldap_username :: string
  lldap_password :: string
  relogin_time :: nat

record auth_manager =
  token :: js_token
  login_endpoint :: string
  config :: lldap_config

text \<open>
  The constructor.  \<open>new URL("/auth/simple/login", config.url_base)\<close> resolves the path
  against the base and throws when the base is not a URL; the URL constructor is the
  parameter \<open>new_URL\<close>, called with the path and the base.
\<close>

definition new_AuthManager ::
  "(string \<Rightarrow> string \<Rightarrow> js_error + string) \<Rightarrow> lldap_config \<Rightarrow> js_error + auth_manager"
where
  "new_AuthManager new_URL cfg =
     (case new_URL ''/auth/simple/login'' (url_base cfg) of
        Inl e \<Rightarrow> Inl e
      | Inr url \<Rightarrow> Inr \<lparr>token = Null, login_endpoint = url, config = cfg\<rparr>)"

text \<open>
  What \<open>fetch\<close> is called with, and what it gives back: either it rejects (transport
  failure), or it resolves to a response with the flag \<open>ok\<close> and a body whose \<open>json()\<close>
  either rejects or yields an object, of which only the member \<open>token\<close> is read.
\<close>

record login_request =
  endpoint :: string
  body_username :: string
  body_password :: string

record http_response =
  ok :: bool
  json :: "js_error + js_token"

definition getToken :: "auth_manager \<Rightarrow> js_error + js_token" where
  "getToken am = (if token am = Null then Inl (Error ''Not logged in'') else Inr (token am))"

definition login ::
  "(login_request \<Rightarrow> js_error + http_response) \<Rightarrow> auth_manager \<Rightarrow> (js_error + unit) \<times> auth_manager"
where
  "login fetch am =
     (case fetch \<lparr>endpoint = login_endpoint am,
                  body_username = lldap_username (config am),
                  body_password = lldap_password (config am)\<rparr> of
        Inl e \<Rightarrow> (Inl e, am)
      | Inr res \<Rightarrow>
          if \<not> ok res then (Inl (Error ''Failed to login''), am)
          else (case json res of
                  Inl e \<Rightarrow> (Inl e, am)
                | Inr data_token \<Rightarrow> (Inr (), am\<lparr>token := data_token\<rparr>)))"


section \<open>lldap.ts: LldapClient\<close>

text \<open>
  The GraphQL endpoint, one typed operation per schema field the client's documents
  use: \<open>user(userId)\<close>, \<open>users(filters: {eq: {field, value}})\<close>, \<open>createUser(user)\<close> and
  \<open>addUserToGroup(userId, groupId)\<close>; the result shapes are those of the casts in the
  source.  The first argument is the value of the \<open>Authorization\<close> header.  Queries read
  the directory state \<open>'b\<close>; mutations return the new one.  A rejected request (an error
  payload or a transport failure) is \<open>Inl\<close>.
\<close>

record gql_user =
  gql_id :: string
  gql_email :: string
  gql_attributes :: "(string \<times> string) list"

record create_user_input =
  in_id :: string
  in_email :: string
  in_attributes :: "(string \<times> string) list"

record 'b graphql =
  q_user :: "string \<Rightarrow> string \<Rightarrow> 'b \<Rightarrow> js_error + gql_user"
  q_users :: "string \<Rightarrow> string \<times> string \<Rightarrow> 'b \<Rightarrow> js_error + string list"
  m_createUser :: "string \<Rightarrow> create_user_input \<Rightarrow> 'b \<Rightarrow> (js_error + string) \<times> 'b"
  m_addUserToGroup :: "string \<Rightarrow> string \<Rightarrow> int \<Rightarrow> 'b \<Rightarrow> (js_error + bool) \<times> 'b"

text \<open>
  Everything observable that the bot does: the client methods it invokes, the Telegram
  calls it makes.  (\<open>console.log\<close> output is left out.)
\<close>

datatype event =
    Call_get_user_by_id string
  | Call_get_user_by_telegram_id string
  | Call_create_user string string string
  | Call_add_to_group string int
  | Call_getChatMember int int
  | Reply string
  | SendMessage int string

record 'b world =
  auth :: auth_manager
  dir :: 'b
  events :: "event list"

definition emit :: "event \<Rightarrow> 'b world \<Rightarrow> 'b world" where
  "emit e w = w\<lparr>events := events w @ [e]\<rparr>"

text \<open>The \<open>headers\<close> callback of the GraphQL client; a throw in it rejects the request.\<close>

definition token_text :: "js_token \<Rightarrow> string" where
  "token_text t = (case t of Null \<Rightarrow> ''null'' | Undefined \<Rightarrow> ''undefined'' | Str s \<Rightarrow> s)"

definition headers :: "auth_manager \<Rightarrow> js_error + string" where
  "headers am = (case getToken am of Inl e \<Rightarrow> Inl e | Inr t \<Rightarrow> Inr (''Bearer '' @ token_text t))"

record lldap_user =
  lu_id :: string
  lu_telegram_id :: "string option"
  lu_email :: string

definition get_user_by_id ::
  "'b graphql \<Rightarrow> string \<Rightarrow> 'b world \<Rightarrow> (js_error + lldap_user option) \<times> 'b world"
where
  "get_user_by_id gql user_id w =
     (let w' = emit (Call_get_user_by_id user_id) w;
          res = (case headers (auth w) of
                   Inl e \<Rightarrow> Inl e
                 | Inr h \<Rightarrow> q_user gql h user_id (dir w))
      in case res of
           Inr user \<Rightarrow>
             (Inr (Some \<lparr>lu_id = gql_id user,
                         lu_telegram_id =
                           map_option snd (find (\<lambda>attr. fst attr = ''telegram_id'') (gql_attributes user)),
                         lu_email = gql_email user\<rparr>), w')
         | Inl err \<Rightarrow>
             if instanceof_Error err \<and> str_includes (message err) ''Entity not found''
             then (Inr None, w')
             else (Inl err, w'))"

definition get_user_by_telegram_id ::
  "'b graphql \<Rightarrow> string \<Rightarrow> 'b world \<Rightarrow> (js_error + string option) \<times> 'b world"
where
  "get_user_by_telegram_id gql telegram_id w =
     (let w' = emit (Call_get_user_by_telegram_id telegram_id) w;
          res = (case headers (auth w) of
                   Inl e \<Rightarrow> Inl e
                 | Inr h \<Rightarrow> q_users gql h (''telegram_id'', telegram_id) (dir w))
      in case res of
           Inl err \<Rightarrow> (Inl err, w')
         | Inr users \<Rightarrow> (case users of [] \<Rightarrow> (Inr None, w') | u # us \<Rightarrow> (Inr (Some u), w')))"

definition create_user ::
  "'b graphql \<Rightarrow> string \<Rightarrow> string \<Rightarrow> string \<Rightarrow> 'b world \<Rightarrow> (js_error + string) \<times> 'b world"
where
  "create_user gql telegram_id user_id email w =
     (let w' = emit (Call_create_user telegram_id user_id email) w
      in case headers (auth w) of
           Inl e \<Rightarrow> (Inl e, w')
         | Inr h \<Rightarrow>
             (case m_createUser gql h
                     \<lparr>in_id = user_id, in_email = email,
                      in_attributes = [(''telegram_id'', telegram_id)]\<rparr> (dir w) of
                (res, d) \<Rightarrow> (res, w'\<lparr>dir := d\<rparr>)))"

definition add_to_group_message :: "(int \<Rightarrow> string) \<Rightarrow> string \<Rightarrow> int \<Rightarrow> string" where
  "add_to_group_message unsafe user_id group_id =
     ''Failed to add user '' @ user_id @ '' to group '' @ toString unsafe group_id"

definition add_to_group ::
  "(int \<Rightarrow> string) \<Rightarrow> 'b graphql \<Rightarrow> string \<Rightarrow> int \<Rightarrow> 'b world
     \<Rightarrow> (js_error + unit) \<times> 'b world"
where
  "add_to_group unsafe gql user_id group_id w =
     (let w' = emit (Call_add_to_group user_id group_id) w
      in case headers (auth w) of
           Inl e \<Rightarrow> (Inl e, w')
         | Inr h \<Rightarrow>
             (case m_addUserToGroup gql h user_id group_id (dir w) of
                (Inl e, d) \<Rightarrow> (Inl e, w'\<lparr>dir := d\<rparr>)
              | (Inr flag, d) \<Rightarrow>
                  if \<not> flag
                  then (Inl (Error (add_to_group_message unsafe user_id group_id)), w'\<lparr>dir := d\<rparr>)
                  else (Inr (), w'\<lparr>dir := d\<rparr>)))"



section \<open>bot.ts: the patterns of command\_register\<close>

text \<open>
  Both regular expressions of \<open>command_register\<close> are anchored sequences of literal
  characters and quantified character classes.  A class is a list of ranges and single
  characters; \<open>Cls cls lo hi\<close> is the class with the quantifier \<open>{lo,hi}\<close>, where no
  upper bound (\<open>+\<close>, \<open>{2,}\<close>) is \<open>None\<close>.  \<open>regex_match\<close> is \<open>s.match(/^...$/)\<close> being
  non-null: it tries every admissible length for each quantified class.
\<close>

datatype class_item = Range char char | Single char

fun in_item :: "char \<Rightarrow> class_item \<Rightarrow> bool" where
  "in_item c (Range lo hi) = ((of_char lo :: nat) \<le> of_char c \<and> (of_char c :: nat) \<le> of_char hi)"
| "in_item c (Single x) = (c = x)"

definition in_class :: "class_item list \<Rightarrow> char \<Rightarrow> bool" where
  "in_class cls c = list_ex (in_item c) cls"

datatype regex_item = Lit char | Cls "class_item list" nat "nat option"

fun regex_match :: "regex_item list \<Rightarrow> string \<Rightarrow> bool" where
  "regex_match [] s = (s = [])"
| "regex_match (Lit c # r) s = (case s of [] \<Rightarrow> False | x # xs \<Rightarrow> x = c \<and> regex_match r xs)"
| "regex_match (Cls cls lo hi # r) s =
     list_ex (\<lambda>k. list_all (in_class cls) (take k s) \<and> regex_match r (drop k s))
       [lo ..< Suc (case hi of None \<Rightarrow> length s | Some h \<Rightarrow> min h (length s))]"

text \<open>\<open>/^[a-zA-Z0-9_]{3,32}$/\<close>\<close>

definition username_regex :: "regex_item list" where
  "username_regex =
     [Cls [Range CHR ''a'' CHR ''z'', Range CHR ''A'' CHR ''Z'', Range CHR ''0'' CHR ''9'',
           Single CHR ''_''] 3 (Some 32)]"

text \<open>\<open>/^[a-zA-Z0-9._%+-]+@[a-zA-Z0-9.-]+\.[a-zA-Z]{2,}$/\<close>\<close>

definition email_regex :: "regex_item list" where
  "email_regex =
     [Cls [Range CHR ''a'' CHR ''z'', Range CHR ''A'' CHR ''Z'', Range CHR ''0'' CHR ''9'',
           Single CHR ''.'', Single CHR ''_'', Single CHR ''%'', Single CHR ''+'',
           Single CHR ''-''] 1 None,
      Lit CHR ''@'',
      Cls [Range CHR ''a'' CHR ''z'', Range CHR ''A'' CHR ''Z'', Range CHR ''0'' CHR ''9'',
           Single CHR ''.'', Single CHR ''-''] 1 None,
      Lit CHR ''.'',
      Cls [Range CHR ''a'' CHR ''z'', Range CHR ''A'' CHR ''Z''] 2 None]"


section \<open>bot.ts: AuthBot\<close>

text \<open>
  The six states of a Telegram chat member, and the part of the configuration the bot
  reads: the ordered list \<open>authorized_chats\<close>, the table \<open>member_types\<close> (an integer for
  each of the six states) and \<open>help_text.login_url\<close>.
\<close>

datatype member_status = Creator | Administrator | Member | Restricted | Left | Kicked

record authorized_chat =
  chat :: int
  nickname :: string
  ldap_group_id :: "int option"

record tg_config =
  log_chat_id :: int
  authorized_chats :: "authorized_chat list"
  member_types :: "member_status \<Rightarrow> int"
  login_url :: string

datatype chat_type = Private | Group | Supergroup | Channel

record tg_chat =
  chat_id :: int
  chat_type :: chat_type

record tg_user =
  tg_id :: int
  first_name :: string

text \<open>\<open>ctx.from\<close>, \<open>ctx.chat\<close> and \<open>ctx.message?.text\<close>, each of which may be undefined.\<close>

record command_context =
  ctx_from :: "tg_user option"
  ctx_chat :: "tg_chat option"
  ctx_text :: "string option"

text \<open>
  What the bot calls and does not define: the GraphQL endpoint, \<open>bot.api.getChatMember\<close>
  (which may reject), the outcome of a \<open>ctx.reply\<close> that is awaited or returned (\<open>Some e\<close>
  when it rejects), the library function \<open>escapeHtml\<close>, and the rendering of the integers
  beyond the safe range (see \<open>toString\<close>).
\<close>

record 'b platform =
  gql_client :: "'b graphql"
  getChatMember :: "int \<Rightarrow> int \<Rightarrow> js_error + member_status"
  reply_rejects :: "string \<Rightarrow> js_error option"
  escapeHtml :: "string \<Rightarrow> string"
  unsafe_toString :: "int \<Rightarrow> string"

definition report_message :: "tg_config \<Rightarrow> string \<Rightarrow> 'b world \<Rightarrow> 'b world" where
  "report_message cfg msg w = emit (SendMessage (log_chat_id cfg) msg) w"

definition report_error :: "tg_config \<Rightarrow> js_error \<Rightarrow> 'b world \<Rightarrow> 'b world" where
  "report_error cfg err w =
     emit (SendMessage (log_chat_id cfg) (''An error occurred: '' @ [CHR 0x0A] @ err_toString err)) w"

datatype auth_result = StatusNone | Privileged int int string

text \<open>
  The loop of the private branch of \<open>auth_status\<close>; the accumulator is
  \<open>(max_status, max_granted_chat, max_granted_chat_nickname)\<close>.
\<close>

fun private_loop ::
  "'b platform \<Rightarrow> (member_status \<Rightarrow> int) \<Rightarrow> int \<Rightarrow> authorized_chat list \<Rightarrow> int \<times> int \<times> string
     \<Rightarrow> 'b world \<Rightarrow> (js_error + int \<times> int \<times> string) \<times> 'b world"
where
  "private_loop p mt uid [] acc w = (Inr acc, w)"
| "private_loop p mt uid (c # cs) (max_status, max_granted_chat, max_nickname) w =
     (let w' = emit (Call_getChatMember (chat c) uid) w
      in case getChatMember p (chat c) uid of
           Inl e \<Rightarrow> (Inl e, w')
         | Inr status \<Rightarrow>
             if mt status > max_status
             then private_loop p mt uid cs (mt status, chat c, nickname c) w'
             else private_loop p mt uid cs (max_status, max_granted_chat, max_nickname) w')"

definition auth_status ::
  "'b platform \<Rightarrow> tg_config \<Rightarrow> command_context \<Rightarrow> 'b world \<Rightarrow> (js_error + auth_result) \<times> 'b world"
where
  "auth_status p cfg ctx w =
     (case ctx_from ctx of
        None \<Rightarrow> (Inr StatusNone, w)
      | Some user \<Rightarrow>
         (case ctx_chat ctx of
            None \<Rightarrow> (Inr StatusNone, w)
          | Some ch \<Rightarrow>
              if chat_type ch = Group \<or> chat_type ch = Supergroup then
                (case find (\<lambda>x. chat x = chat_id ch) (authorized_chats cfg) of
                   None \<Rightarrow> (Inr StatusNone, w)
                 | Some good_chat \<Rightarrow>
                     (let w' = emit (Call_getChatMember (chat_id ch) (tg_id user)) w
                      in case getChatMember p (chat_id ch) (tg_id user) of
                           Inl e \<Rightarrow> (Inl e, w')
                         | Inr status \<Rightarrow>
                             (Inr (Privileged (member_types cfg status) (chat_id ch)
                                     (nickname good_chat)), w')))
              else if chat_type ch = Private then
                (case private_loop p (member_types cfg) (tg_id user) (authorized_chats cfg)
                        (- 1, - 1, '''') w of
                   (Inl e, w') \<Rightarrow> (Inl e, w')
                 | (Inr (max_status, max_granted_chat, max_nickname), w') \<Rightarrow>
                     if max_status > 0
                     then (Inr (Privileged max_status max_granted_chat max_nickname), w')
                     else (Inr StatusNone, w'))
              else (Inr StatusNone, w)))"

subsection \<open>The group attachment of command\_register\<close>

text \<open>
  \<open>Promise.all(authorized_chats.map(async (chat) => ...))\<close>.  \<open>map\<close> starts one task per
  configured chat, in configuration order; each runs to its first \<open>await\<close>, which is the
  \<open>getChatMember\<close> call.  From then on a task advances when the promise it awaits
  settles, in an order the code does not fix: the schedule, a list of task indices, gives
  that order.  A task is at one of its three awaits, holding the outcome that the await
  will deliver, or it has finished.  A call acts on the directory when it is made; its
  outcome reaches the task when the task is resumed.
\<close>

datatype task =
    AwaitMember "js_error + member_status"
  | AwaitAdd "js_error + unit"
  | AwaitReply "js_error option"
  | Fulfilled
  | Rejected js_error

definition start_task :: "'b platform \<Rightarrow> int \<Rightarrow> authorized_chat \<Rightarrow> task" where
  "start_task p uid c = AwaitMember (getChatMember p (chat c) uid)"

definition added_message :: "string \<Rightarrow> authorized_chat \<Rightarrow> string" where
  "added_message username c =
     ''User <b>'' @ username @ ''</b> has been added to a group '' @
     ''because you are in chat <b>'' @ nickname c @ ''</b>''"

fun resume ::
  "'b platform \<Rightarrow> tg_config \<Rightarrow> string \<Rightarrow> authorized_chat \<Rightarrow> task \<Rightarrow> 'b world \<Rightarrow> task \<times> 'b world"
where
  "resume p cfg username c (AwaitMember (Inl e)) w = (Rejected e, w)"
| "resume p cfg username c (AwaitMember (Inr status)) w =
     (if member_types cfg status \<le> 0 then (Fulfilled, w)
      else (case ldap_group_id c of
              None \<Rightarrow> (Fulfilled, w)
            | Some ldap_group \<Rightarrow>
                (case add_to_group (unsafe_toString p) (gql_client p) username ldap_group w of
                   (r, w') \<Rightarrow> (AwaitAdd r, w'))))"
| "resume p cfg username c (AwaitAdd (Inl e)) w = (Rejected e, w)"
| "resume p cfg username c (AwaitAdd (Inr u)) w =
     (AwaitReply (reply_rejects p (added_message username c)),
      emit (Reply (added_message username c)) w)"
| "resume p cfg username c (AwaitReply (Some e)) w = (Rejected e, w)"
| "resume p cfg username c (AwaitReply None) w = (Fulfilled, w)"
| "resume p cfg username c Fulfilled w = (Fulfilled, w)"
| "resume p cfg username c (Rejected e) w = (Rejected e, w)"

text \<open>The \<open>catch\<close> block of \<open>command_register\<close>.\<close>

definition catch_handler :: "tg_config \<Rightarrow> js_error \<Rightarrow> 'b world \<Rightarrow> 'b world" where
  "catch_handler cfg err w =
     report_error cfg err
       (emit (Reply ''LLDAP server had an error. Please contact the administrator.'') w)"

text \<open>
  The state of the attachment phase: the tasks, whether \<open>Promise.all\<close> has rejected (the
  first rejection of a task rejects it, and the \<open>catch\<close> block runs then, once), and the
  world.  Nothing cancels the other tasks: they go on when their promises settle.
\<close>

record 'b attach_state =
  tasks :: "task list"
  caught :: bool
  att_world :: "'b world"

definition attach_step ::
  "'b platform \<Rightarrow> tg_config \<Rightarrow> string \<Rightarrow> nat \<Rightarrow> 'b attach_state \<Rightarrow> 'b attach_state"
where
  "attach_step p cfg username i st =
     (if i < length (tasks st) \<and> i < length (authorized_chats cfg) then
        (case resume p cfg username (authorized_chats cfg ! i) (tasks st ! i) (att_world st) of
           (Rejected e, w') \<Rightarrow>
             if caught st then st\<lparr>tasks := (tasks st)[i := Rejected e], att_world := w'\<rparr>
             else \<lparr>tasks = (tasks st)[i := Rejected e], caught = True,
                   att_world = catch_handler cfg e w'\<rparr>
         | (t', w') \<Rightarrow> st\<lparr>tasks := (tasks st)[i := t'], att_world := w'\<rparr>)
      else st)"

definition attach_start :: "'b platform \<Rightarrow> tg_config \<Rightarrow> int \<Rightarrow> 'b world \<Rightarrow> 'b attach_state" where
  "attach_start p cfg uid w =
     \<lparr>tasks = map (start_task p uid) (authorized_chats cfg),
      caught = False,
      att_world = fold (\<lambda>c. emit (Call_getChatMember (chat c) uid)) (authorized_chats cfg) w\<rparr>"

definition attach_run ::
  "'b platform \<Rightarrow> tg_config \<Rightarrow> string \<Rightarrow> int \<Rightarrow> nat list \<Rightarrow> 'b world \<Rightarrow> 'b attach_state"
where
  "attach_run p cfg username uid schedule w =
     fold (attach_step p cfg username) schedule (attach_start p cfg uid w)"

text \<open>
  \<open>await Promise.all(...)\<close> inside the \<open>try\<close>: the function goes on once every task is
  fulfilled or once the \<open>catch\<close> block has run; with a schedule that ends before that,
  it has not returned (\<open>None\<close>).
\<close>

definition attach_outcome :: "'b attach_state \<Rightarrow> (js_error + unit) option" where
  "attach_outcome st =
     (if caught st then Some (Inr ())
      else if list_all (\<lambda>t. t = Fulfilled) (tasks st) then Some (Inr ())
      else None)"

subsection \<open>command\_register\<close>

text \<open>
  \<open>return ctx.reply(msg)\<close> in an async function: the reply is sent, and the call is
  rejected if the reply is.
\<close>

definition return_reply ::
  "'b platform \<Rightarrow> string \<Rightarrow> 'b world \<Rightarrow> (js_error + unit) option \<times> 'b world"
where
  "return_reply p msg w =
     (case reply_rejects p msg of None \<Rightarrow> Some (Inr ()) | Some e \<Rightarrow> Some (Inl e),
      emit (Reply msg) w)"

definition exists_message :: "string \<Rightarrow> string" where
  "exists_message username = ''User <b>'' @ username @ ''</b> already exists.''"

definition connected_message :: "string \<Rightarrow> string" where
  "connected_message existing_connect =
     ''This telegram account is already connected to user <b>'' @ existing_connect @ ''</b>.''"

definition registered_message :: "tg_config \<Rightarrow> string \<Rightarrow> string" where
  "registered_message cfg username =
     ''User <b>'' @ username @ ''</b> has been registered.'' @ [CHR 0x0A, CHR 0x0A] @
     ''Please go to '' @ login_url cfg @ '' and use the '' @ [CHR 0x22] @ ''Reset Password'' @
     [CHR 0x22] @ '' feature to set your password.''"

definition registered_report :: "'b platform \<Rightarrow> string \<Rightarrow> tg_user \<Rightarrow> tg_chat \<Rightarrow> string" where
  "registered_report p username user ch =
     ''User <b>'' @ username @ ''</b> has been registered by '' @ escapeHtml p (first_name user) @
     ''('' @ toString (unsafe_toString p) (tg_id user) @ '') in chat '' @
     toString (unsafe_toString p) (chat_id ch)"

text \<open>The \<open>try\<close> block with its \<open>catch\<close>.\<close>

definition register_try ::
  "'b platform \<Rightarrow> tg_config \<Rightarrow> tg_user \<Rightarrow> tg_chat \<Rightarrow> string \<Rightarrow> string \<Rightarrow> nat list \<Rightarrow> 'b world
     \<Rightarrow> (js_error + unit) option \<times> 'b world"
where
  "register_try p cfg user ch username email schedule w =
     (case get_user_by_id (gql_client p) username w of
        (Inl err, w1) \<Rightarrow> (Some (Inr ()), catch_handler cfg err w1)
      | (Inr (Some existing_user), w1) \<Rightarrow> (Some (Inr ()), emit (Reply (exists_message username)) w1)
      | (Inr None, w1) \<Rightarrow>
          (case get_user_by_telegram_id (gql_client p)
                  (toString (unsafe_toString p) (tg_id user)) w1 of
             (Inl err, w2) \<Rightarrow> (Some (Inr ()), catch_handler cfg err w2)
           | (Inr (Some existing_connect), w2) \<Rightarrow>
               (Some (Inr ()), emit (Reply (connected_message existing_connect)) w2)
           | (Inr None, w2) \<Rightarrow>
               (case create_user (gql_client p) (toString (unsafe_toString p) (tg_id user))
                       username email w2 of
                  (Inl err, w3) \<Rightarrow> (Some (Inr ()), catch_handler cfg err w3)
                | (Inr created, w3) \<Rightarrow>
                    (let w4 = emit (Reply (registered_message cfg username)) w3;
                         w5 = report_message cfg (registered_report p username user ch) w4;
                         st = attach_run p cfg username (tg_id user) schedule w5
                     in (attach_outcome st, att_world st)))))"

definition command_register ::
  "'b platform \<Rightarrow> tg_config \<Rightarrow> command_context \<Rightarrow> nat list \<Rightarrow> 'b world
     \<Rightarrow> (js_error + unit) option \<times> 'b world"
where
  "command_register p cfg ctx schedule w =
     (case ctx_from ctx of
        None \<Rightarrow> return_reply p ''You are not identified as a telegram user'' w
      | Some user \<Rightarrow>
         (case ctx_chat ctx of
            None \<Rightarrow> (Some (Inl (CommandArgsError ''Use this command in a private chat.'')), w)
          | Some ch \<Rightarrow>
              if chat_type ch \<noteq> Private
              then (Some (Inl (CommandArgsError ''Use this command in a private chat.'')), w)
              else
                (case auth_status p cfg ctx w of
                   (Inl e, w0) \<Rightarrow> (Some (Inl e), w0)
                 | (Inr status, w0) \<Rightarrow>
                     if status = StatusNone
                     then return_reply p ''You are not privileged to use this command'' w0
                     else
                       (case map_option (\<lambda>t. split t CHR '' '') (ctx_text ctx) of
                          None \<Rightarrow> (Some (Inl (CommandArgsError ''Invalid number of arguments'')), w0)
                        | Some args \<Rightarrow>
                            (case args of
                               [command, username, email] \<Rightarrow>
                                 if \<not> regex_match username_regex username
                                 then (Some (Inl (CommandArgsError ''Invalid username'')), w0)
                                 else if \<not> regex_match email_regex email
                                 then (Some (Inl (CommandArgsError ''Invalid email'')), w0)
                                 else register_try p cfg user ch username email schedule w0
                             | _ \<Rightarrow>
                                 (Some (Inl (CommandArgsError ''Invalid number of arguments'')), w0))))))"


section \<open>The directory backend\<close>

text \<open>
  Modelled from the spec: the directory backend is an external service, no source of
  which is in the repository; sections 3, 4.2 and 6 of the specification describe it.
  It stores users with an identifier, an email and attributes; \<open>createUser\<close> adds a user
  with the attributes it is given and answers with an opaque identifier, and is rejected
  when the identifier is taken; \<open>user\<close> answers with the stored user, and with an error
  carrying the marker "Entity not found" when there is none; \<open>users\<close> answers with the
  identifiers of the users that have the attribute, in the order of creation;
  \<open>addUserToGroup\<close> answers with a success flag, which the specification leaves open and
  which is therefore a parameter.
\<close>

record stored_user =
  su_id :: string
  su_email :: string
  su_attributes :: "(string \<times> string) list"

record directory =
  dir_users :: "stored_user list"
  dir_members :: "(string \<times> int) list"

text \<open>Modelled from the spec: the query \<open>user(userId)\<close> of the backend (section 6).\<close>

definition spec_user :: "string \<Rightarrow> string \<Rightarrow> directory \<Rightarrow> js_error + gql_user" where
  "spec_user h uid d =
     (case find (\<lambda>u. su_id u = uid) (dir_users d) of
        None \<Rightarrow> Inl (Error (''Entity not found: No such user: '' @ uid))
      | Some u \<Rightarrow> Inr \<lparr>gql_id = su_id u, gql_email = su_email u, gql_attributes = su_attributes u\<rparr>)"

text \<open>
  Modelled from the spec: the query \<open>users\<close> with an equality filter on an attribute
  (section 6).
\<close>

definition spec_users :: "string \<Rightarrow> string \<times> string \<Rightarrow> directory \<Rightarrow> js_error + string list" where
  "spec_users h flt d = Inr (map su_id (filter (\<lambda>u. flt \<in> set (su_attributes u)) (dir_users d)))"

text \<open>
  Modelled from the spec: the mutation \<open>createUser\<close> of the backend (sections 4.2 and 6);
  the opaque identifier it answers with is made from the number of users.
\<close>

definition spec_createUser ::
  "string \<Rightarrow> create_user_input \<Rightarrow> directory \<Rightarrow> (js_error + string) \<times> directory"
where
  "spec_createUser h inp d =
     (if list_ex (\<lambda>u. su_id u = in_id inp) (dir_users d)
      then (Inl (Error (''User already exists: '' @ in_id inp)), d)
      else (Inr (''uuid-'' @ digits (length (dir_users d))),
            d\<lparr>dir_users := dir_users d @
                 [\<lparr>su_id = in_id inp, su_email = in_email inp,
                   su_attributes = in_attributes inp\<rparr>]\<rparr>))"

text \<open>
  Modelled from the spec: the mutation \<open>addUserToGroup\<close> of the backend (sections 4.2
  and 6), with the success flag decided by the parameter \<open>flag\<close>.
\<close>

definition spec_addUserToGroup ::
  "(string \<Rightarrow> int \<Rightarrow> bool) \<Rightarrow> string \<Rightarrow> string \<Rightarrow> int \<Rightarrow> directory \<Rightarrow> (js_error + bool) \<times> directory"
where
  "spec_addUserToGroup flag h uid gid d =
     (if flag uid gid then (Inr True, d\<lparr>dir_members := dir_members d @ [(uid, gid)]\<rparr>)
      else (Inr False, d))"

text \<open>Modelled from the spec: the four operations together.\<close>

definition spec_backend :: "(string \<Rightarrow> int \<Rightarrow> bool) \<Rightarrow> directory graphql" where
  "spec_backend flag =
     \<lparr>q_user = spec_user, q_users = spec_users, m_createUser = spec_createUser,
      m_addUserToGroup = spec_addUserToGroup flag\<rparr>"


section \<open>The patterns in the specification's words\<close>

text \<open>
  \<open>^[A-Za-z0-9_]{3,32}$\<close>: between 3 and 32 characters, each a letter, a digit or an
  underscore.
\<close>

definition letters :: string where
  "letters = ''ABCDEFGHIJKLMNOPQRSTUVWXYZabcdefghijklmnopqrstuvwxyz''"

definition decimal_digits :: string where
  "decimal_digits = ''0123456789''"

definition spec_username :: "string \<Rightarrow> bool" where
  "spec_username s \<longleftrightarrow>
     3 \<le> length s \<and> length s \<le> 32 \<and> set s \<subseteq> set (letters @ decimal_digits @ ''_'')"

text \<open>
  An address \<open>local@domain.tld\<close>: a non-empty local part of letters, digits and
  \<open>._%+-\<close>, an at sign, a non-empty domain of letters, digits, dots and hyphens, a dot,
  and a top-level domain of at least two letters.
\<close>

definition spec_email :: "string \<Rightarrow> bool" where
  "spec_email s \<longleftrightarrow>
     (\<exists>local domain tld.
        s = local @ ''@'' @ domain @ ''.'' @ tld
        \<and> local \<noteq> [] \<and> set local \<subseteq> set (letters @ decimal_digits @ ''._%+-'')
        \<and> domain \<noteq> [] \<and> set domain \<subseteq> set (letters @ decimal_digits @ ''.-'')
        \<and> 2 \<le> length tld \<and> set tld \<subseteq> set letters)"


section \<open>A concrete deployment\<close>

text \<open>
  Two trust domains A and B with the weights member \<open>\<mapsto>\<close> 2 and administrator \<open>\<mapsto>\<close> 5
  (every other state has the default \<open>-1\<close>); user 42 is a member of A and an
  administrator of B, every other user has left both chats.
\<close>

definition ex_lldap_config :: lldap_config where
  "ex_lldap_config =
     \<lparr>url_base = ''http://lldap:17170'', lldap_username = ''admin'', lldap_password = ''secret'',
      relogin_time = 21600\<rparr>"

definition ex_am :: "js_token \<Rightarrow> auth_manager" where
  "ex_am t = \<lparr>token = t, login_endpoint = ''http://lldap:17170/auth/simple/login'',
             config = ex_lldap_config\<rparr>"

definition ex_world :: "js_token \<Rightarrow> directory world" where
  "ex_world t = \<lparr>auth = ex_am t, dir = \<lparr>dir_users = [], dir_members = []\<rparr>, events = []\<rparr>"

definition ex_member_types :: "member_status \<Rightarrow> int" where
  "ex_member_types s = (case s of Member \<Rightarrow> 2 | Administrator \<Rightarrow> 5 | _ \<Rightarrow> - 1)"

definition chat_A :: authorized_chat where
  "chat_A = \<lparr>chat = - 1001, nickname = ''A'', ldap_group_id = Some 10\<rparr>"

definition chat_B :: authorized_chat where
  "chat_B = \<lparr>chat = - 1002, nickname = ''B'', ldap_group_id = Some 20\<rparr>"

definition ex_cfg :: tg_config where
  "ex_cfg = \<lparr>log_chat_id = - 999, authorized_chats = [chat_A, chat_B],
             member_types = ex_member_types, login_url = ''https://login.example''\<rparr>"

definition ex_getChatMember :: "int \<Rightarrow> int \<Rightarrow> js_error + member_status" where
  "ex_getChatMember c u =
     (if u = 42 then (if c = - 1001 then Inr Member
                      else if c = - 1002 then Inr Administrator
                      else Inl (Error ''Bad Request: chat not found''))
      else Inr Left)"

definition accept_all :: "string \<Rightarrow> int \<Rightarrow> bool" where
  "accept_all u g = True"

text \<open>A rendering of the integers beyond the safe range, for the deployment.\<close>

definition ex_unsafe :: "int \<Rightarrow> string" where
  "ex_unsafe i = ''1e+21''"

definition ex_platform :: "(string \<Rightarrow> int \<Rightarrow> bool) \<Rightarrow> directory platform" where
  "ex_platform flag =
     \<lparr>gql_client = spec_backend flag, getChatMember = ex_getChatMember,
      reply_rejects = (\<lambda>m. None), escapeHtml = (\<lambda>s. s), unsafe_toString = ex_unsafe\<rparr>"

definition ex_user :: tg_user where
  "ex_user = \<lparr>tg_id = 42, first_name = ''Ann''\<rparr>"

definition ex_ctx :: "string option \<Rightarrow> command_context" where
  "ex_ctx t = \<lparr>ctx_from = Some ex_user, ctx_chat = Some \<lparr>chat_id = 42, chat_type = Private\<rparr>,
               ctx_text = t\<rparr>"

text \<open>User 43, who has left chat A, sends a command in the supergroup A.\<close>

definition ex_group_ctx :: command_context where
  "ex_group_ctx =
     \<lparr>ctx_from = Some \<lparr>tg_id = 43, first_name = ''Bob''\<rparr>,
      ctx_chat = Some \<lparr>chat_id = - 1001, chat_type = Supergroup\<rparr>,
      ctx_text = Some ''/mystatus''\<rparr>"

text \<open>
  User 43, who has left both chats, sends \<open>/register\<close> alone in a private chat, and in
  the supergroup A.
\<close>

definition ex_unprivileged_ctx :: command_context where
  "ex_unprivileged_ctx =
     \<lparr>ctx_from = Some \<lparr>tg_id = 43, first_name = ''Bob''\<rparr>,
      ctx_chat = Some \<lparr>chat_id = 43, chat_type = Private\<rparr>,
      ctx_text = Some ''/register''\<rparr>"

definition ex_supergroup_ctx :: command_context where
  "ex_supergroup_ctx =
     \<lparr>ctx_from = Some \<lparr>tg_id = 43, first_name = ''Bob''\<rparr>,
      ctx_chat = Some \<lparr>chat_id = - 1001, chat_type = Supergroup\<rparr>,
      ctx_text = Some ''/register''\<rparr>"

text \<open>
  A backend whose \<open>addUserToGroup\<close> rejects every request with an error that repeats the
  variables of the request, as the GraphQL client's errors do.
\<close>

definition ex_rejecting_backend :: "directory graphql" where
  "ex_rejecting_backend =
     \<lparr>q_user = spec_user, q_users = spec_users, m_createUser = spec_createUser,
      m_addUserToGroup =
        (\<lambda>h uid gid d. (Inl (Error (''GraphQL Error (Code: 500): variables user_id '' @ uid
                                       @ '', group_id '' @ toString ex_unsafe gid)), d))\<rparr>"

text \<open>A directory that already holds some users.\<close>

definition ex_world_users :: "stored_user list \<Rightarrow> directory world" where
  "ex_world_users us =
     \<lparr>auth = ex_am (Str ''tok''), dir = \<lparr>dir_users = us, dir_members = []\<rparr>, events = []\<rparr>"

definition ex_alice :: stored_user where
  "ex_alice = \<lparr>su_id = ''alice'', su_email = ''alice@example.org'',
               su_attributes = [(''telegram_id'', ''7'')]\<rparr>"

definition ex_bob :: stored_user where
  "ex_bob = \<lparr>su_id = ''bob'', su_email = ''bob@example.org'',
             su_attributes = [(''telegram_id'', ''42'')]\<rparr>"


definition refuse_group_10 :: "string \<Rightarrow> int \<Rightarrow> bool" where
  "refuse_group_10 u g = (g \<noteq> 10)"




section \<open>The invariant of the group attachment\<close>





section \<open>Facts about the string helpers\<close>

lemma starts_with_iff: "starts_with s sub \<longleftrightarrow> (\<exists>q. s = sub @ q)"
  by (induction s sub rule: starts_with.induct) auto

lemma str_includes_iff: "str_includes s sub \<longleftrightarrow> (\<exists>p q. s = p @ sub @ q)"
proof (induction s)
  case Nil
  show ?case by auto
next
  case (Cons x xs)
  show ?case
  proof
    assume "str_includes (x # xs) sub"
    then consider "starts_with (x # xs) sub" | "str_includes xs sub" by auto
    then show "\<exists>p q. x # xs = p @ sub @ q"
    proof cases
      case 1
      then obtain q where "x # xs = sub @ q" unfolding starts_with_iff by blast
      then have "x # xs = [] @ sub @ q" by simp
      then show ?thesis by blast
    next
      case 2
      with Cons obtain p q where "xs = p @ sub @ q" by blast
      then have "x # xs = (x # p) @ sub @ q" by simp
      then show ?thesis by blast
    qed
  next
    assume "\<exists>p q. x # xs = p @ sub @ q"
    then obtain p q where pq: "x # xs = p @ sub @ q" by blast
    show "str_includes (x # xs) sub"
    proof (cases p)
      case Nil
      with pq have "starts_with (x # xs) sub" unfolding starts_with_iff by simp
      then show ?thesis by simp
    next
      case (Cons y ys)
      with pq have "xs = ys @ sub @ q" by simp
      then have "str_includes xs sub" using Cons.IH by blast
      then show ?thesis by simp
    qed
  qed
qed

lemma length_split_from: "length (split_from sep cur s) = Suc (count_list s sep)"
  by (induction s arbitrary: cur) auto

lemma length_split: "length (split s sep) = Suc (count_list s sep)"
  by (simp add: split_def length_split_from)

lemma digits_small:
  "digits 0 = ''0''" "digits 7 = ''7''" "digits 10 = ''10''" "digits 20 = ''20''"
  "digits 42 = ''42''" "digits 43 = ''43''"
  by code_simp+

lemma toString_small:
  "toString unsafe 7 = ''7''" "toString unsafe 10 = ''10''" "toString unsafe 20 = ''20''"
  "toString unsafe 42 = ''42''" "toString unsafe 43 = ''43''"
  by (simp_all add: toString_def digits_small)


lemma events_emit [simp]: "events (emit e w) = events w @ [e]"
  by (simp add: emit_def)

lemma dir_emit [simp]: "dir (emit e w) = dir w"
  by (simp add: emit_def)

lemma auth_emit [simp]: "auth (emit e w) = auth w"
  by (simp add: emit_def)


section \<open>AuthManager.login\<close>

text \<open>
  C6.  Whatever token the session holds: when \<open>fetch\<close> rejects, \<open>login\<close> fails with that
  error; when the response is not a success response, \<open>login\<close> fails with the error
  "Failed to login"; in both cases the session is left exactly as it was.  Conversely the
  stored token differs after \<open>login\<close> only if the backend answered with a success response
  and \<open>login\<close> returned normally, and then the token is the one of the response body.
\<close>

theorem login_keeps_token_on_failure:
  fixes fetch :: "login_request \<Rightarrow> js_error + http_response"
  defines "req am \<equiv> \<lparr>endpoint = login_endpoint am, body_username = lldap_username (config am),
                       body_password = lldap_password (config am)\<rparr>"
  shows "(fetch (req am) = Inl e \<longrightarrow> login fetch am = (Inl e, am))
       \<and> (fetch (req am) = Inr res \<and> \<not> ok res \<longrightarrow>
            login fetch am = (Inl (Error ''Failed to login''), am))
       \<and> (fetch (req am) = Inr res \<and> ok res \<and> json res = Inr t \<longrightarrow>
            login fetch am = (Inr (), am\<lparr>token := t\<rparr>))
       \<and> (token (snd (login fetch am)) \<noteq> token am \<longrightarrow>
            (\<exists>r t'. fetch (req am) = Inr r \<and> ok r \<and> json r = Inr t'
                   \<and> login fetch am = (Inr (), am\<lparr>token := t'\<rparr>)))"
  unfolding req_def login_def
  by (auto split: sum.splits)

theorem login_keeps_token_on_failure_witness:
  "login (\<lambda>r. Inr \<lparr>ok = False, json = Inr (Str ''new'')\<rparr>) (ex_am (Str ''old''))
     = (Inl (Error ''Failed to login''), ex_am (Str ''old''))
   \<and> login (\<lambda>r. Inl (Error ''connection refused'')) (ex_am (Str ''old''))
     = (Inl (Error ''connection refused''), ex_am (Str ''old''))
   \<and> login (\<lambda>r. Inr \<lparr>ok = True, json = Inr (Str ''new'')\<rparr>) (ex_am (Str ''old''))
     = (Inr (), (ex_am (Str ''old''))\<lparr>token := Str ''new''\<rparr>)"
proof -
  have a: "login (\<lambda>r. Inr \<lparr>ok = False, json = Inr (Str ''new'')\<rparr>) (ex_am (Str ''old''))
             = (Inl (Error ''Failed to login''), ex_am (Str ''old''))"
    using login_keeps_token_on_failure
      [of "\<lambda>r. Inr \<lparr>ok = False, json = Inr (Str ''new'')\<rparr>" "ex_am (Str ''old'')" undefined
          "\<lparr>ok = False, json = Inr (Str ''new'')\<rparr>"]
    by simp
  have b: "login (\<lambda>r. Inl (Error ''connection refused'')) (ex_am (Str ''old''))
             = (Inl (Error ''connection refused''), ex_am (Str ''old''))"
    using login_keeps_token_on_failure
      [of "\<lambda>r. Inl (Error ''connection refused'')" "ex_am (Str ''old'')"
          "Error ''connection refused''"]
    by simp
  have c: "login (\<lambda>r. Inr \<lparr>ok = True, json = Inr (Str ''new'')\<rparr>) (ex_am (Str ''old''))
             = (Inr (), (ex_am (Str ''old''))\<lparr>token := Str ''new''\<rparr>)"
    using login_keeps_token_on_failure
      [of "\<lambda>r. Inr \<lparr>ok = True, json = Inr (Str ''new'')\<rparr>" "ex_am (Str ''old'')" undefined
          "\<lparr>ok = True, json = Inr (Str ''new'')\<rparr>" "Str ''new''"]
    by simp
  from a b c show ?thesis by simp
qed


section \<open>The directory client\<close>

lemma add_to_group_message_names:
  "str_includes (add_to_group_message unsafe user_id group_id) user_id"
  "str_includes (add_to_group_message unsafe user_id group_id) (toString unsafe group_id)"
proof -
  have "add_to_group_message unsafe user_id group_id
          = ''Failed to add user '' @ user_id @ ('' to group '' @ toString unsafe group_id)"
    by (simp add: add_to_group_message_def)
  then show "str_includes (add_to_group_message unsafe user_id group_id) user_id"
    unfolding str_includes_iff by blast
  have "add_to_group_message unsafe user_id group_id
          = (''Failed to add user '' @ user_id @ '' to group '') @ toString unsafe group_id @ []"
    by (simp add: add_to_group_message_def)
  then show "str_includes (add_to_group_message unsafe user_id group_id) (toString unsafe group_id)"
    unfolding str_includes_iff by blast
qed

lemma headers_ex_am: "headers (ex_am (Str t)) = Inr (''Bearer '' @ t)"
  by (simp add: headers_def getToken_def ex_am_def token_text_def)

lemma headers_Null: "token am = Null \<Longrightarrow> headers am = Inl (Error ''Not logged in'')"
  by (simp add: headers_def getToken_def)

lemma headers_not_Null: "token am \<noteq> Null \<Longrightarrow> headers am = Inr (''Bearer '' @ token_text (token am))"
  by (simp add: headers_def getToken_def)

text \<open>
  C3.  \<open>get_user_by_id\<close> returns the user that the backend answers with; it returns
  nothing when the request fails with an Error whose message contains "Entity not found";
  every other failure of the request is passed on unchanged.  When the session holds no
  token, the request is not sent and the call fails with "Not logged in".  With a token
  stored, and a backend that reports an unknown identifier by that marker, the lookup of
  an identifier that no user has returns nothing.
\<close>

theorem get_user_by_id_outcomes:
  fixes w :: "'b world" and v :: "directory world"
  shows "(headers (auth w) = Inr h \<and> q_user gql h user_id (dir w) = Inr u \<longrightarrow>
            fst (get_user_by_id gql user_id w)
              = Inr (Some \<lparr>lu_id = gql_id u,
                           lu_telegram_id =
                             map_option snd (find (\<lambda>attr. fst attr = ''telegram_id'') (gql_attributes u)),
                           lu_email = gql_email u\<rparr>))
       \<and> (headers (auth w) = Inr h \<and> q_user gql h user_id (dir w) = Inl e
            \<and> instanceof_Error e \<and> (\<exists>p q. message e = p @ ''Entity not found'' @ q) \<longrightarrow>
            fst (get_user_by_id gql user_id w) = Inr None)
       \<and> (headers (auth w) = Inr h \<and> q_user gql h user_id (dir w) = Inl e
            \<and> \<not> (instanceof_Error e \<and> (\<exists>p q. message e = p @ ''Entity not found'' @ q)) \<longrightarrow>
            fst (get_user_by_id gql user_id w) = Inl e)
       \<and> (token (auth w) = Null \<longrightarrow>
            fst (get_user_by_id gql user_id w) = Inl (Error ''Not logged in''))
       \<and> (token (auth v) \<noteq> Null \<and> find (\<lambda>s. su_id s = user_id) (dir_users (dir v)) = None \<longrightarrow>
            fst (get_user_by_id (spec_backend flag) user_id v) = Inr None)"
proof -
  have m: "str_includes (''Entity not found: No such user: '' @ user_id) ''Entity not found''"
  proof -
    have "''Entity not found: No such user: '' @ user_id
            = [] @ ''Entity not found'' @ ('': No such user: '' @ user_id)"
      by simp
    then show ?thesis unfolding str_includes_iff by blast
  qed
  have 5: "token (auth v) \<noteq> Null \<and> find (\<lambda>s. su_id s = user_id) (dir_users (dir v)) = None \<longrightarrow>
            fst (get_user_by_id (spec_backend flag) user_id v) = Inr None"
    using m
    by (simp add: get_user_by_id_def Let_def headers_not_Null spec_backend_def spec_user_def)
  have 4: "token (auth w) = Null \<longrightarrow>
            fst (get_user_by_id gql user_id w) = Inl (Error ''Not logged in'')"
    by (simp add: get_user_by_id_def Let_def headers_Null)
  have 123: "(headers (auth w) = Inr h \<and> q_user gql h user_id (dir w) = Inr u \<longrightarrow>
            fst (get_user_by_id gql user_id w)
              = Inr (Some \<lparr>lu_id = gql_id u,
                           lu_telegram_id =
                             map_option snd (find (\<lambda>attr. fst attr = ''telegram_id'') (gql_attributes u)),
                           lu_email = gql_email u\<rparr>))
       \<and> (headers (auth w) = Inr h \<and> q_user gql h user_id (dir w) = Inl e
            \<and> instanceof_Error e \<and> (\<exists>p q. message e = p @ ''Entity not found'' @ q) \<longrightarrow>
            fst (get_user_by_id gql user_id w) = Inr None)
       \<and> (headers (auth w) = Inr h \<and> q_user gql h user_id (dir w) = Inl e
            \<and> \<not> (instanceof_Error e \<and> (\<exists>p q. message e = p @ ''Entity not found'' @ q)) \<longrightarrow>
            fst (get_user_by_id gql user_id w) = Inl e)"
    by (simp add: get_user_by_id_def Let_def str_includes_iff)
  from 123 4 5 show ?thesis by blast
qed

theorem get_user_by_id_outcomes_witness:
  "fst (get_user_by_id (spec_backend (\<lambda>u g. True)) ''ghost'' (ex_world (Str ''tok''))) = Inr None
   \<and> fst (get_user_by_id (spec_backend (\<lambda>u g. True)) ''ghost'' (ex_world Null))
       = Inl (Error ''Not logged in'')"
proof -
  have a: "token (auth (ex_world (Str ''tok''))) \<noteq> Null
         \<and> find (\<lambda>s. su_id s = ''ghost'') (dir_users (dir (ex_world (Str ''tok'')))) = None"
    by (simp add: ex_world_def ex_am_def)
  have b: "token (auth (ex_world Null)) = Null"
    by (simp add: ex_world_def ex_am_def)
  from get_user_by_id_outcomes
         [of "ex_world Null" undefined "spec_backend (\<lambda>u g. True)" "''ghost''" undefined undefined
             "ex_world (Str ''tok'')" "\<lambda>u g. True"]
       a b
  show ?thesis by blast
qed

theorem get_user_by_id_not_logged_in_counterexample:
  "dir_users (dir (ex_world Null)) = []
   \<and> token (auth (ex_world Null)) = Null
   \<and> fst (get_user_by_id (spec_backend accept_all) ''ghost'' (ex_world Null))
       = Inl (Error ''Not logged in'')
   \<and> fst (get_user_by_id (spec_backend accept_all) ''ghost'' (ex_world Null)) \<noteq> Inr None"
  by (simp add: get_user_by_id_def Let_def headers_def getToken_def ex_world_def ex_am_def)

text \<open>
  C7.  When a token is stored and the backend answers \<open>addUserToGroup\<close> with a success
  flag, \<open>add_to_group\<close> fails with the error "Failed to add user ... to group ..."
  exactly when the flag is false, and returns normally when it is true; the message
  contains the user id and the group id as JavaScript prints it.  When the backend
  rejects the request, the error of the request is passed on unchanged, whatever it
  names; when the session holds no token, the call fails with "Not logged in".
\<close>

theorem add_to_group_outcomes:
  "(headers (auth w) = Inr h \<and> m_addUserToGroup gql h user_id group_id (dir w) = (Inr flag, d) \<longrightarrow>
      ((fst (add_to_group unsafe gql user_id group_id w)
          = Inl (Error (add_to_group_message unsafe user_id group_id))) = (\<not> flag))
      \<and> (flag \<longrightarrow> fst (add_to_group unsafe gql user_id group_id w) = Inr ()))
   \<and> (headers (auth w) = Inr h \<and> m_addUserToGroup gql h user_id group_id (dir w) = (Inl e, d) \<longrightarrow>
        fst (add_to_group unsafe gql user_id group_id w) = Inl e)
   \<and> (token (auth w) = Null \<longrightarrow>
        fst (add_to_group unsafe gql user_id group_id w) = Inl (Error ''Not logged in''))
   \<and> str_includes (add_to_group_message unsafe user_id group_id) user_id
   \<and> str_includes (add_to_group_message unsafe user_id group_id) (toString unsafe group_id)"
proof -
  have a: "headers (auth w) = Inr h \<and> m_addUserToGroup gql h user_id group_id (dir w) = (Inr flag, d) \<longrightarrow>
      ((fst (add_to_group unsafe gql user_id group_id w)
          = Inl (Error (add_to_group_message unsafe user_id group_id))) = (\<not> flag))
      \<and> (flag \<longrightarrow> fst (add_to_group unsafe gql user_id group_id w) = Inr ())"
    by (simp add: add_to_group_def Let_def)
  have b: "headers (auth w) = Inr h \<and> m_addUserToGroup gql h user_id group_id (dir w) = (Inl e, d) \<longrightarrow>
        fst (add_to_group unsafe gql user_id group_id w) = Inl e"
    by (simp add: add_to_group_def Let_def)
  have c: "token (auth w) = Null \<longrightarrow>
        fst (add_to_group unsafe gql user_id group_id w) = Inl (Error ''Not logged in'')"
    by (simp add: add_to_group_def Let_def headers_Null)
  from a b c add_to_group_message_names [of unsafe user_id group_id] show ?thesis by blast
qed

theorem add_to_group_outcomes_witness:
  "fst (add_to_group ex_unsafe (spec_backend refuse_group_10) ''alice'' 10 (ex_world (Str ''tok'')))
     = Inl (Error ''Failed to add user alice to group 10'')
   \<and> fst (add_to_group ex_unsafe (spec_backend accept_all) ''alice'' 10 (ex_world (Str ''tok'')))
     = Inr ()
   \<and> fst (add_to_group ex_unsafe ex_rejecting_backend ''alice'' 10 (ex_world (Str ''tok'')))
     = Inl (Error ''GraphQL Error (Code: 500): variables user_id alice, group_id 10'')
   \<and> fst (add_to_group ex_unsafe (spec_backend accept_all) ''alice'' 10 (ex_world Null))
     = Inl (Error ''Not logged in'')"
proof -
  let ?w = "ex_world (Str ''tok'')"
  have h: "headers (auth ?w) = Inr ''Bearer tok''"
    by (simp add: ex_world_def headers_ex_am)
  have n: "token (auth (ex_world Null)) = Null"
    by (simp add: ex_world_def ex_am_def)
  have f: "m_addUserToGroup (spec_backend refuse_group_10) ''Bearer tok'' ''alice'' 10 (dir ?w)
             = (Inr False, dir ?w)"
    by (simp add: spec_backend_def spec_addUserToGroup_def refuse_group_10_def)
  have t: "m_addUserToGroup (spec_backend accept_all) ''Bearer tok'' ''alice'' 10 (dir ?w)
             = (Inr True, (dir ?w)\<lparr>dir_members := dir_members (dir ?w) @ [(''alice'', 10)]\<rparr>)"
    by (simp add: spec_backend_def spec_addUserToGroup_def accept_all_def)
  have r: "m_addUserToGroup ex_rejecting_backend ''Bearer tok'' ''alice'' 10 (dir ?w)
             = (Inl (Error ''GraphQL Error (Code: 500): variables user_id alice, group_id 10''), dir ?w)"
    by (simp add: ex_rejecting_backend_def toString_small)
  have msg: "add_to_group_message ex_unsafe ''alice'' 10 = ''Failed to add user alice to group 10''"
    by (simp add: add_to_group_message_def toString_small)
  have 1: "fst (add_to_group ex_unsafe (spec_backend refuse_group_10) ''alice'' 10 ?w)
             = Inl (Error ''Failed to add user alice to group 10'')"
    using add_to_group_outcomes
            [of ?w "''Bearer tok''" "spec_backend refuse_group_10" "''alice''" 10 False "dir ?w"
                ex_unsafe]
          h f msg
    by simp
  have 2: "fst (add_to_group ex_unsafe (spec_backend accept_all) ''alice'' 10 ?w) = Inr ()"
    using add_to_group_outcomes
            [of ?w "''Bearer tok''" "spec_backend accept_all" "''alice''" 10 True
                "(dir ?w)\<lparr>dir_members := dir_members (dir ?w) @ [(''alice'', 10)]\<rparr>" ex_unsafe]
          h t
    by simp
  have 3: "fst (add_to_group ex_unsafe ex_rejecting_backend ''alice'' 10 ?w)
             = Inl (Error ''GraphQL Error (Code: 500): variables user_id alice, group_id 10'')"
    using add_to_group_outcomes
            [of ?w "''Bearer tok''" ex_rejecting_backend "''alice''" 10 _ "dir ?w" ex_unsafe
                "Error ''GraphQL Error (Code: 500): variables user_id alice, group_id 10''"]
          h r
    by simp
  have 4: "fst (add_to_group ex_unsafe (spec_backend accept_all) ''alice'' 10 (ex_world Null))
             = Inl (Error ''Not logged in'')"
    using add_to_group_outcomes [of "ex_world Null" _ "spec_backend accept_all" "''alice''" 10 _ _ ex_unsafe]
          n
    by simp
  from 1 2 3 4 show ?thesis by blast
qed

theorem add_to_group_rejected_request_counterexample:
  "m_addUserToGroup ex_rejecting_backend ''Bearer tok'' ''alice'' 10 (dir (ex_world (Str ''tok'')))
     = (Inl (Error ''GraphQL Error (Code: 500): variables user_id alice, group_id 10''),
        dir (ex_world (Str ''tok'')))
   \<and> fst (add_to_group ex_unsafe ex_rejecting_backend ''alice'' 10 (ex_world (Str ''tok'')))
     = Inl (Error ''GraphQL Error (Code: 500): variables user_id alice, group_id 10'')
   \<and> str_includes ''GraphQL Error (Code: 500): variables user_id alice, group_id 10'' ''alice''
   \<and> str_includes ''GraphQL Error (Code: 500): variables user_id alice, group_id 10'' ''10''"
  by (simp add: add_to_group_def Let_def ex_world_def headers_ex_am ex_rejecting_backend_def
        toString_small)

lemma find_snoc_new:
  "\<not> list_ex P xs \<Longrightarrow> P x \<Longrightarrow> find P (xs @ [x]) = Some x"
  by (induction xs) auto

lemma spec_backend_stores:
  assumes "m_createUser (spec_backend flag) h inp d = (Inr uuid, d')"
  shows "q_user (spec_backend flag) h (in_id inp) d'
           = Inr \<lparr>gql_id = in_id inp, gql_email = in_email inp, gql_attributes = in_attributes inp\<rparr>"
proof (cases "list_ex (\<lambda>u. su_id u = in_id inp) (dir_users d)")
  case True
  with assms show ?thesis by (simp add: spec_backend_def spec_createUser_def)
next
  case False
  let ?new = "\<lparr>su_id = in_id inp, su_email = in_email inp, su_attributes = in_attributes inp\<rparr>"
  have d': "d' = d\<lparr>dir_users := dir_users d @ [?new]\<rparr>"
    using assms False by (simp add: spec_backend_def spec_createUser_def)
  have "find (\<lambda>u. su_id u = in_id inp) (dir_users d @ [?new]) = Some ?new"
    using False by (intro find_snoc_new) simp_all
  then show ?thesis unfolding d' by (simp add: spec_backend_def spec_user_def)
qed

text \<open>
  C8.  Against a backend that, after it has accepted \<open>createUser\<close>, answers \<open>user\<close> for
  the new identifier with the identifier, email and attributes it was given: when
  \<open>create_user\<close> succeeds, the lookup of the same identifier that follows it returns the
  user with that identifier, that email and the external identity as its \<open>telegram_id\<close>.
  The backend of the specification is such a backend.
\<close>

theorem create_user_then_get_user_by_id:
  assumes "\<forall>h inp d uuid d'.
             m_createUser gql h inp d = (Inr uuid, d') \<longrightarrow>
             q_user gql h (in_id inp) d'
               = Inr \<lparr>gql_id = in_id inp, gql_email = in_email inp,
                      gql_attributes = in_attributes inp\<rparr>"
      and "fst (create_user gql telegram_id user_id email w) = Inr uuid"
  shows "fst (get_user_by_id gql user_id (snd (create_user gql telegram_id user_id email w)))
           = Inr (Some \<lparr>lu_id = user_id, lu_telegram_id = Some telegram_id, lu_email = email\<rparr>)"
proof (cases "headers (auth w)")
  case (Inl e)
  with assms(2) show ?thesis by (simp add: create_user_def Let_def)
next
  case (Inr h)
  let ?inp = "\<lparr>in_id = user_id, in_email = email, in_attributes = [(''telegram_id'', telegram_id)]\<rparr>"
  obtain r d' where m: "m_createUser gql h ?inp (dir w) = (r, d')"
    by (cases "m_createUser gql h ?inp (dir w)") auto
  have cu: "create_user gql telegram_id user_id email w
              = (r, (emit (Call_create_user telegram_id user_id email) w)\<lparr>dir := d'\<rparr>)"
    using Inr m by (simp add: create_user_def Let_def)
  with assms(2) have r: "r = Inr uuid" by simp
  from assms(1) m r have q: "q_user gql h user_id d'
               = Inr \<lparr>gql_id = user_id, gql_email = email,
                      gql_attributes = [(''telegram_id'', telegram_id)]\<rparr>"
    by fastforce
  show ?thesis
    unfolding cu using Inr q by (simp add: get_user_by_id_def Let_def emit_def)
qed

theorem create_user_then_get_user_by_id_witness:
  "fst (create_user (spec_backend accept_all) ''42'' ''alice'' ''alice@example.com''
          (ex_world (Str ''tok''))) = Inr ''uuid-0''
   \<and> fst (get_user_by_id (spec_backend accept_all) ''alice''
            (snd (create_user (spec_backend accept_all) ''42'' ''alice'' ''alice@example.com''
                    (ex_world (Str ''tok'')))))
       = Inr (Some \<lparr>lu_id = ''alice'', lu_telegram_id = Some ''42'', lu_email = ''alice@example.com''\<rparr>)"
proof -
  have d: "digits 0 = ''0''" by code_simp
  have c: "\<forall>h inp d uuid d'.
             m_createUser (spec_backend accept_all) h inp d = (Inr uuid, d') \<longrightarrow>
             q_user (spec_backend accept_all) h (in_id inp) d'
               = Inr \<lparr>gql_id = in_id inp, gql_email = in_email inp,
                      gql_attributes = in_attributes inp\<rparr>"
    using spec_backend_stores by blast
  have h: "fst (create_user (spec_backend accept_all) ''42'' ''alice'' ''alice@example.com''
          (ex_world (Str ''tok''))) = Inr ''uuid-0''"
    by (simp add: create_user_def Let_def ex_world_def headers_ex_am spec_backend_def
          spec_createUser_def d)
  from create_user_then_get_user_by_id [OF c h] h show ?thesis by simp
qed


section \<open>Privilege resolution\<close>

lemma private_loop_all:
  assumes "\<forall>c \<in> set cs. getChatMember p (chat c) uid = Inr (states (chat c))"
  shows "\<exists>m' gc' gn'.
           private_loop p mt uid cs (m, gc, gn) w
             = (Inr (m', gc', gn'),
                w\<lparr>events := events w @ map (\<lambda>c. Call_getChatMember (chat c) uid) cs\<rparr>)
         \<and> m' = Max (insert m ((\<lambda>c. mt (states (chat c))) ` set cs))
         \<and> (if \<exists>c \<in> set cs. m < mt (states (chat c))
             then \<exists>pre c post. cs = pre @ c # post \<and> mt (states (chat c)) = m'
                    \<and> (\<forall>x \<in> set pre. mt (states (chat x)) < m')
                    \<and> gc' = chat c \<and> gn' = nickname c
             else gc' = gc \<and> gn' = gn)"
  using assms
proof (induction cs arbitrary: m gc gn w)
  case Nil
  show ?case by simp
next
  case (Cons a cs)
  let ?wt = "\<lambda>c. mt (states (chat c))"
  let ?w' = "emit (Call_getChatMember (chat a) uid) w"
  have ga: "getChatMember p (chat a) uid = Inr (states (chat a))" using Cons.prems by simp
  have rest: "\<forall>c \<in> set cs. getChatMember p (chat c) uid = Inr (states (chat c))"
    using Cons.prems by simp
  have ev: "\<And>v. (?w'\<lparr>events := events ?w' @ map (\<lambda>c. Call_getChatMember (chat c) uid) cs\<rparr>)
          = w\<lparr>events := events w @ map (\<lambda>c. Call_getChatMember (chat c) uid) (a # cs)\<rparr>"
    by (simp add: emit_def)
  have fin: "finite (?wt ` set cs)" by simp
  show ?case
  proof (cases "m < ?wt a")
    case True
    from Cons.IH [OF rest, of "?wt a" "chat a" "nickname a" ?w']
    obtain m' gc' gn' where
      run: "private_loop p mt uid cs (?wt a, chat a, nickname a) ?w'
              = (Inr (m', gc', gn'),
                 ?w'\<lparr>events := events ?w' @ map (\<lambda>c. Call_getChatMember (chat c) uid) cs\<rparr>)"
      and mx: "m' = Max (insert (?wt a) (?wt ` set cs))"
      and pos: "if \<exists>c \<in> set cs. ?wt a < ?wt c
                then \<exists>pre c post. cs = pre @ c # post \<and> ?wt c = m'
                       \<and> (\<forall>x \<in> set pre. ?wt x < m') \<and> gc' = chat c \<and> gn' = nickname c
                else gc' = chat a \<and> gn' = nickname a"
      by blast
    have eq: "private_loop p mt uid (a # cs) (m, gc, gn) w
                = (Inr (m', gc', gn'),
                   w\<lparr>events := events w @ map (\<lambda>c. Call_getChatMember (chat c) uid) (a # cs)\<rparr>)"
      using True ga run ev by (simp add: Let_def)
    have mx': "m' = Max (insert m (?wt ` set (a # cs)))"
    proof -
      define A where "A = insert (?wt a) (?wt ` set cs)"
      have fA: "finite A" "A \<noteq> {}" unfolding A_def by simp_all
      have "?wt a \<le> Max A" using fA unfolding A_def by simp
      then have "m \<le> Max A" using True by simp
      moreover have "Max (insert m A) = max m (Max A)" using fA by simp
      ultimately have "Max (insert m A) = Max A" by simp
      then show ?thesis using mx unfolding A_def by simp
    qed
    have ex: "\<exists>c \<in> set (a # cs). m < ?wt c" using True by simp
    have "\<exists>pre c post. a # cs = pre @ c # post \<and> ?wt c = m'
             \<and> (\<forall>x \<in> set pre. ?wt x < m') \<and> gc' = chat c \<and> gn' = nickname c"
    proof (cases "\<exists>c \<in> set cs. ?wt a < ?wt c")
      case True
      with pos obtain pre c post where
        sp: "cs = pre @ c # post" "?wt c = m'" "\<forall>x \<in> set pre. ?wt x < m'"
            "gc' = chat c" "gn' = nickname c"
        by auto
      have "c \<in> set cs" using sp(1) by simp
      have "?wt a < m'"
      proof -
        obtain c' where "c' \<in> set cs" "?wt a < ?wt c'" using True by blast
        moreover have "?wt c' \<le> m'" unfolding mx using fin \<open>c' \<in> set cs\<close> by simp
        ultimately show ?thesis by simp
      qed
      then have "a # cs = (a # pre) @ c # post \<and> ?wt c = m'
              \<and> (\<forall>x \<in> set (a # pre). ?wt x < m') \<and> gc' = chat c \<and> gn' = nickname c"
        using sp by simp
      then show ?thesis by blast
    next
      case False
      with pos have g: "gc' = chat a" "gn' = nickname a" by auto
      have "m' = ?wt a"
        unfolding mx
      proof (rule Max_eqI)
        show "finite (insert (?wt a) (?wt ` set cs))" by simp
        show "?wt a \<in> insert (?wt a) (?wt ` set cs)" by simp
        fix y assume "y \<in> insert (?wt a) (?wt ` set cs)"
        then show "y \<le> ?wt a" using False by auto
      qed
      then have "a # cs = [] @ a # cs \<and> ?wt a = m'
              \<and> (\<forall>x \<in> set []. ?wt x < m') \<and> gc' = chat a \<and> gn' = nickname a"
        using g by simp
      then show ?thesis by blast
    qed
    with eq mx' ex show ?thesis by auto
  next
    case False
    from Cons.IH [OF rest, of m gc gn ?w']
    obtain m' gc' gn' where
      run: "private_loop p mt uid cs (m, gc, gn) ?w'
              = (Inr (m', gc', gn'),
                 ?w'\<lparr>events := events ?w' @ map (\<lambda>c. Call_getChatMember (chat c) uid) cs\<rparr>)"
      and mx: "m' = Max (insert m (?wt ` set cs))"
      and pos: "if \<exists>c \<in> set cs. m < ?wt c
                then \<exists>pre c post. cs = pre @ c # post \<and> ?wt c = m'
                       \<and> (\<forall>x \<in> set pre. ?wt x < m') \<and> gc' = chat c \<and> gn' = nickname c
                else gc' = gc \<and> gn' = gn"
      by blast
    have eq: "private_loop p mt uid (a # cs) (m, gc, gn) w
                = (Inr (m', gc', gn'),
                   w\<lparr>events := events w @ map (\<lambda>c. Call_getChatMember (chat c) uid) (a # cs)\<rparr>)"
      using False ga run ev by (simp add: Let_def)
    have mge: "m \<le> m'" unfolding mx using fin by simp
    have mx': "m' = Max (insert m (?wt ` set (a # cs)))"
    proof -
      define A where "A = insert m (?wt ` set cs)"
      have fA: "finite A" "A \<noteq> {}" unfolding A_def by simp_all
      have "m \<le> Max A" using fA unfolding A_def by simp
      then have "?wt a \<le> Max A" using False by simp
      moreover have "Max (insert (?wt a) A) = max (?wt a) (Max A)" using fA by simp
      ultimately have "Max (insert (?wt a) A) = Max A" by simp
      moreover have "insert m (?wt ` set (a # cs)) = insert (?wt a) A"
        unfolding A_def by auto
      ultimately show ?thesis using mx unfolding A_def by simp
    qed
    show ?thesis
    proof (cases "\<exists>c \<in> set cs. m < ?wt c")
      case True
      with pos obtain pre c post where
        sp: "cs = pre @ c # post" "?wt c = m'" "\<forall>x \<in> set pre. ?wt x < m'"
            "gc' = chat c" "gn' = nickname c"
        by auto
      have "m < m'"
      proof -
        obtain c' where "c' \<in> set cs" "m < ?wt c'" using True by blast
        moreover have "?wt c' \<le> m'" unfolding mx using fin \<open>c' \<in> set cs\<close> by simp
        ultimately show ?thesis by simp
      qed
      then have "?wt a < m'" using False by simp
      then have "a # cs = (a # pre) @ c # post \<and> ?wt c = m'
              \<and> (\<forall>x \<in> set (a # pre). ?wt x < m') \<and> gc' = chat c \<and> gn' = nickname c"
        using sp by simp
      then have "\<exists>pre c post. a # cs = pre @ c # post \<and> ?wt c = m'
             \<and> (\<forall>x \<in> set pre. ?wt x < m') \<and> gc' = chat c \<and> gn' = nickname c"
        by blast
      moreover have "\<exists>c \<in> set (a # cs). m < ?wt c" using True by auto
      ultimately show ?thesis using eq mx' by auto
    next
      case F2: False
      with pos have g: "gc' = gc" "gn' = gn" by auto
      have "\<not> (\<exists>c \<in> set (a # cs). m < ?wt c)" using False F2 by simp
      then show ?thesis using eq mx' g by auto
    qed
  qed
qed

text \<open>
  C2.  In a private chat, when every membership query answers, \<open>auth_status\<close> queries
  the caller's state in every configured chat, in configuration order.  If some chat
  gives a weight above 0, the result is privileged with the greatest weight of all chats
  as level, and the granting chat is the first chat of the configuration that has this
  weight (every chat before it has a strictly smaller one); otherwise the result is
  the status none.  The witness is the example of the specification: member \<open>\<mapsto>\<close> 2 in A,
  administrator \<open>\<mapsto>\<close> 5 in B gives level 5 granted by B.
\<close>

theorem auth_status_private_maximum:
  assumes "ctx_from ctx = Some user" and "ctx_chat ctx = Some ch" and "chat_type ch = Private"
      and "\<forall>c \<in> set (authorized_chats cfg).
             getChatMember p (chat c) (tg_id user) = Inr (states (chat c))"
  shows "events (snd (auth_status p cfg ctx w))
           = events w @ map (\<lambda>c. Call_getChatMember (chat c) (tg_id user)) (authorized_chats cfg)
       \<and> (if \<exists>c \<in> set (authorized_chats cfg). 0 < member_types cfg (states (chat c))
          then \<exists>pre c post.
                 authorized_chats cfg = pre @ c # post
                 \<and> (\<forall>x \<in> set (authorized_chats cfg).
                       member_types cfg (states (chat x)) \<le> member_types cfg (states (chat c)))
                 \<and> (\<forall>x \<in> set pre.
                       member_types cfg (states (chat x)) < member_types cfg (states (chat c)))
                 \<and> fst (auth_status p cfg ctx w)
                     = Inr (Privileged (member_types cfg (states (chat c))) (chat c) (nickname c))
          else fst (auth_status p cfg ctx w) = Inr StatusNone)"
proof -
  let ?cs = "authorized_chats cfg"
  let ?wt = "\<lambda>c. member_types cfg (states (chat c))"
  from private_loop_all [OF assms(4), of "member_types cfg" "- 1" "- 1" "''''" w]
  obtain m' gc' gn' where
    run: "private_loop p (member_types cfg) (tg_id user) ?cs (- 1, - 1, '''') w
            = (Inr (m', gc', gn'),
               w\<lparr>events := events w @ map (\<lambda>c. Call_getChatMember (chat c) (tg_id user)) ?cs\<rparr>)"
    and mx: "m' = Max (insert (- 1) (?wt ` set ?cs))"
    and pos: "if \<exists>c \<in> set ?cs. - 1 < ?wt c
              then \<exists>pre c post. ?cs = pre @ c # post \<and> ?wt c = m'
                     \<and> (\<forall>x \<in> set pre. ?wt x < m') \<and> gc' = chat c \<and> gn' = nickname c
              else gc' = - 1 \<and> gn' = ''''"
    by blast
  have st: "auth_status p cfg ctx w
              = (if 0 < m' then Inr (Privileged m' gc' gn') else Inr StatusNone,
                 w\<lparr>events := events w @ map (\<lambda>c. Call_getChatMember (chat c) (tg_id user)) ?cs\<rparr>)"
    using assms(1-3) run by (simp add: auth_status_def)
  have ub: "\<forall>x \<in> set ?cs. ?wt x \<le> m'" unfolding mx by simp
  show ?thesis
  proof (cases "\<exists>c \<in> set ?cs. 0 < ?wt c")
    case True
    then obtain c0 where c0: "c0 \<in> set ?cs" "0 < ?wt c0" by blast
    then have "0 < m'" using ub by force
    moreover have "\<exists>c \<in> set ?cs. - 1 < ?wt c" using c0 by force
    with pos obtain pre c post where
      "?cs = pre @ c # post" "?wt c = m'" "\<forall>x \<in> set pre. ?wt x < m'"
      "gc' = chat c" "gn' = nickname c"
      by auto
    ultimately have "?cs = pre @ c # post \<and> (\<forall>x \<in> set ?cs. ?wt x \<le> ?wt c)
        \<and> (\<forall>x \<in> set pre. ?wt x < ?wt c)
        \<and> fst (auth_status p cfg ctx w) = Inr (Privileged (?wt c) (chat c) (nickname c))"
      using ub st by simp
    then have "\<exists>pre c post. ?cs = pre @ c # post \<and> (\<forall>x \<in> set ?cs. ?wt x \<le> ?wt c)
        \<and> (\<forall>x \<in> set pre. ?wt x < ?wt c)
        \<and> fst (auth_status p cfg ctx w) = Inr (Privileged (?wt c) (chat c) (nickname c))"
      by blast
    then show ?thesis using True st by simp
  next
    case False
    have "m' \<le> 0"
      unfolding mx using False by (subst Max_le_iff) auto
    then show ?thesis using False st by simp
  qed
qed

theorem auth_status_private_maximum_witness:
  "ctx_from (ex_ctx None) = Some ex_user \<and> chat_type \<lparr>chat_id = 42, chat_type = Private\<rparr> = Private
   \<and> events (snd (auth_status (ex_platform (\<lambda>u g. True)) ex_cfg (ex_ctx None) (ex_world Null)))
       = [Call_getChatMember (- 1001) 42, Call_getChatMember (- 1002) 42]
   \<and> fst (auth_status (ex_platform (\<lambda>u g. True)) ex_cfg (ex_ctx None) (ex_world Null))
       = Inr (Privileged 5 (- 1002) ''B'')"
proof -
  have h1: "ctx_from (ex_ctx None) = Some ex_user" by (simp add: ex_ctx_def)
  have h2: "ctx_chat (ex_ctx None) = Some \<lparr>chat_id = 42, chat_type = Private\<rparr>"
    by (simp add: ex_ctx_def)
  have h3: "chat_type \<lparr>chat_id = 42, chat_type = Private\<rparr> = Private" by simp
  have h4: "\<forall>c \<in> set (authorized_chats ex_cfg).
     getChatMember (ex_platform (\<lambda>u g. True)) (chat c) (tg_id ex_user)
       = Inr ((\<lambda>i. if i = - 1001 then Member else Administrator) (chat c))"
    by (simp add: ex_cfg_def ex_platform_def ex_getChatMember_def chat_A_def chat_B_def ex_user_def)
  from auth_status_private_maximum [OF h1 h2 h3 h4, of "ex_world Null"]
  have ev: "events (snd (auth_status (ex_platform (\<lambda>u g. True)) ex_cfg (ex_ctx None) (ex_world Null)))
       = [Call_getChatMember (- 1001) 42, Call_getChatMember (- 1002) 42]"
    by (simp add: ex_cfg_def ex_world_def chat_A_def chat_B_def ex_user_def)
  have "fst (auth_status (ex_platform (\<lambda>u g. True)) ex_cfg (ex_ctx None) (ex_world Null))
       = Inr (Privileged 5 (- 1002) ''B'')"
    by (simp add: auth_status_def ex_ctx_def ex_cfg_def ex_platform_def ex_getChatMember_def
          chat_A_def chat_B_def ex_user_def ex_member_types_def Let_def)
  with h1 h3 ev show ?thesis by simp
qed

text \<open>
  C9.  In a group or supergroup that the configuration lists, \<open>auth_status\<close> answers
  privileged with the weight of the caller's membership state as level, whatever the
  weight is: nothing compares it with 0.  In the witness the state "left" has the weight
  \<open>-1\<close> and the result is privileged with level \<open>-1\<close>, while the same caller gets the
  status none in a private chat.
\<close>

theorem auth_status_group_no_positivity_check:
  assumes "ctx_from ctx = Some user" and "ctx_chat ctx = Some ch"
      and "chat_type ch = Group \<or> chat_type ch = Supergroup"
      and "find (\<lambda>x. chat x = chat_id ch) (authorized_chats cfg) = Some good_chat"
      and "getChatMember p (chat_id ch) (tg_id user) = Inr status"
  shows "auth_status p cfg ctx w
           = (Inr (Privileged (member_types cfg status) (chat_id ch) (nickname good_chat)),
              emit (Call_getChatMember (chat_id ch) (tg_id user)) w)"
  using assms by (auto simp: auth_status_def Let_def)

theorem auth_status_group_no_positivity_check_witness:
  "member_types ex_cfg Left = - 1
   \<and> auth_status (ex_platform (\<lambda>u g. True)) ex_cfg ex_group_ctx (ex_world Null)
       = (Inr (Privileged (- 1) (- 1001) ''A''),
          emit (Call_getChatMember (- 1001) 43) (ex_world Null))
   \<and> fst (auth_status (ex_platform (\<lambda>u g. True)) ex_cfg
            (ex_group_ctx\<lparr>ctx_chat := Some \<lparr>chat_id = 43, chat_type = Private\<rparr>\<rparr>) (ex_world Null))
       = Inr StatusNone"
proof -
  have h1: "ctx_from ex_group_ctx = Some \<lparr>tg_id = 43, first_name = ''Bob''\<rparr>"
    by (simp add: ex_group_ctx_def)
  have h2: "ctx_chat ex_group_ctx = Some \<lparr>chat_id = - 1001, chat_type = Supergroup\<rparr>"
    by (simp add: ex_group_ctx_def)
  have h3: "chat_type \<lparr>chat_id = - 1001, chat_type = Supergroup\<rparr> = Group
          \<or> chat_type \<lparr>chat_id = - 1001, chat_type = Supergroup\<rparr> = Supergroup"
    by simp
  have h4: "find (\<lambda>x. chat x = chat_id \<lparr>chat_id = - 1001, chat_type = Supergroup\<rparr>)
              (authorized_chats ex_cfg) = Some chat_A"
    by (simp add: ex_cfg_def chat_A_def)
  have h5: "getChatMember (ex_platform (\<lambda>u g. True))
              (chat_id \<lparr>chat_id = - 1001, chat_type = Supergroup\<rparr>)
              (tg_id \<lparr>tg_id = 43, first_name = ''Bob''\<rparr>) = Inr Left"
    by (simp add: ex_platform_def ex_getChatMember_def)
  have wl: "member_types ex_cfg Left = - 1" by (simp add: ex_cfg_def ex_member_types_def)
  have pr: "fst (auth_status (ex_platform (\<lambda>u g. True)) ex_cfg
            (ex_group_ctx\<lparr>ctx_chat := Some \<lparr>chat_id = 43, chat_type = Private\<rparr>\<rparr>) (ex_world Null))
       = Inr StatusNone"
    by (simp add: auth_status_def ex_group_ctx_def ex_cfg_def ex_platform_def ex_getChatMember_def
          chat_A_def chat_B_def ex_member_types_def Let_def)
  from auth_status_group_no_positivity_check [OF h1 h2 h3 h4 h5, of "ex_world Null"] wl pr
  show ?thesis by (simp add: chat_A_def)
qed


section \<open>The patterns of command\_register and the specification's wording\<close>

lemma list_ex_upt: "list_ex P [a ..< b] \<longleftrightarrow> (\<exists>k. a \<le> k \<and> k < b \<and> P k)"
  by (auto simp: list_ex_iff)

lemma regex_match_Lit:
  "regex_match (Lit c # r) s \<longleftrightarrow> (\<exists>v. s = c # v \<and> regex_match r v)"
  by (cases s) auto

lemma regex_match_Cls:
  "regex_match (Cls cls lo hi # r) s \<longleftrightarrow>
     (\<exists>u v. s = u @ v \<and> lo \<le> length u \<and> (case hi of None \<Rightarrow> True | Some h \<Rightarrow> length u \<le> h)
            \<and> (\<forall>c \<in> set u. in_class cls c) \<and> regex_match r v)"
proof
  assume "regex_match (Cls cls lo hi # r) s"
  then obtain k where k: "lo \<le> k" "k < Suc (case hi of None \<Rightarrow> length s | Some h \<Rightarrow> min h (length s))"
      "list_all (in_class cls) (take k s)" "regex_match r (drop k s)"
    by (auto simp: list_ex_upt simp del: upt_Suc)
  have kl: "k \<le> length s" using k(2) by (cases hi) auto
  have "s = take k s @ drop k s" by simp
  moreover have "lo \<le> length (take k s)" using k(1) kl by simp
  moreover have "case hi of None \<Rightarrow> True | Some h \<Rightarrow> length (take k s) \<le> h"
    using k(2) by (cases hi) auto
  moreover have "\<forall>c \<in> set (take k s). in_class cls c" using k(3) by (simp add: list_all_iff)
  ultimately show "\<exists>u v. s = u @ v \<and> lo \<le> length u
       \<and> (case hi of None \<Rightarrow> True | Some h \<Rightarrow> length u \<le> h)
       \<and> (\<forall>c \<in> set u. in_class cls c) \<and> regex_match r v"
    using k(4) by blast
next
  assume "\<exists>u v. s = u @ v \<and> lo \<le> length u \<and> (case hi of None \<Rightarrow> True | Some h \<Rightarrow> length u \<le> h)
            \<and> (\<forall>c \<in> set u. in_class cls c) \<and> regex_match r v"
  then obtain u v where uv: "s = u @ v" "lo \<le> length u"
      "case hi of None \<Rightarrow> True | Some h \<Rightarrow> length u \<le> h"
      "\<forall>c \<in> set u. in_class cls c" "regex_match r v"
    by blast
  have "length u < Suc (case hi of None \<Rightarrow> length s | Some h \<Rightarrow> min h (length s))"
    using uv(1,3) by (cases hi) auto
  moreover have "list_all (in_class cls) (take (length u) s)"
    using uv(1,4) by (simp add: list_all_iff)
  moreover have "regex_match r (drop (length u) s)" using uv(1,5) by simp
  ultimately show "regex_match (Cls cls lo hi # r) s"
    using uv(2) by (auto simp: list_ex_upt simp del: upt_Suc)
qed

lemma range_chars:
  "(of_char lo :: nat) \<le> of_char c \<and> (of_char c :: nat) \<le> of_char hi
     \<longleftrightarrow> c \<in> char_of ` {of_char lo .. (of_char hi :: nat)}"
proof
  assume "(of_char lo :: nat) \<le> of_char c \<and> (of_char c :: nat) \<le> of_char hi"
  then have "(of_char c :: nat) \<in> {of_char lo .. of_char hi}" by simp
  then have "char_of (of_char c :: nat) \<in> char_of ` {of_char lo .. (of_char hi :: nat)}" by blast
  then show "c \<in> char_of ` {of_char lo .. (of_char hi :: nat)}" by simp
next
  assume "c \<in> char_of ` {of_char lo .. (of_char hi :: nat)}"
  then obtain n :: nat where n: "c = char_of n" "of_char lo \<le> n" "n \<le> of_char hi" by auto
  have "n < 256" by (rule le_less_trans [OF n(3) nat_of_char_less_256])
  then have "(of_char c :: nat) = n" using n(1) by simp
  with n show "(of_char lo :: nat) \<le> of_char c \<and> (of_char c :: nat) \<le> of_char hi" by simp
qed

lemma range_chars_list:
  "(of_char lo :: nat) \<le> of_char c \<and> (of_char c :: nat) \<le> of_char hi
     \<longleftrightarrow> c \<in> set (map char_of [of_char lo ..< Suc (of_char hi :: nat)])"
  unfolding range_chars by (simp del: upt_Suc add: atLeastLessThanSuc_atLeastAtMost)

lemma lower_chars: "map char_of [of_char CHR ''a'' ..< Suc (of_char CHR ''z'' :: nat)] = ''abcdefghijklmnopqrstuvwxyz''"
  by code_simp

lemma upper_chars: "map char_of [of_char CHR ''A'' ..< Suc (of_char CHR ''Z'' :: nat)] = ''ABCDEFGHIJKLMNOPQRSTUVWXYZ''"
  by code_simp

lemma digit_chars: "map char_of [of_char CHR ''0'' ..< Suc (of_char CHR ''9'' :: nat)] = ''0123456789''"
  by code_simp


lemma class_chars:
  fixes c :: char
  defines "L \<equiv> ''abcdefghijklmnopqrstuvwxyz''"
      and "U \<equiv> ''ABCDEFGHIJKLMNOPQRSTUVWXYZ''"
      and "D \<equiv> ''0123456789''"
  shows "in_item c (Range CHR ''a'' CHR ''z'') \<longleftrightarrow> c \<in> set L"
    and "in_item c (Range CHR ''A'' CHR ''Z'') \<longleftrightarrow> c \<in> set U"
    and "in_item c (Range CHR ''0'' CHR ''9'') \<longleftrightarrow> c \<in> set D"
    and "letters = U @ L"
    and "decimal_digits = D"
proof -
  show "in_item c (Range CHR ''a'' CHR ''z'') \<longleftrightarrow> c \<in> set L"
    unfolding L_def by (simp only: in_item.simps range_chars_list lower_chars)
  show "in_item c (Range CHR ''A'' CHR ''Z'') \<longleftrightarrow> c \<in> set U"
    unfolding U_def by (simp only: in_item.simps range_chars_list upper_chars)
  show "in_item c (Range CHR ''0'' CHR ''9'') \<longleftrightarrow> c \<in> set D"
    unfolding D_def by (simp only: in_item.simps range_chars_list digit_chars)
  show "letters = U @ L" unfolding L_def U_def letters_def by simp
  show "decimal_digits = D" unfolding D_def decimal_digits_def by simp
qed

lemma word_class:
  "in_class [Range CHR ''a'' CHR ''z'', Range CHR ''A'' CHR ''Z'', Range CHR ''0'' CHR ''9'',
             Single CHR ''_''] c
     \<longleftrightarrow> c \<in> set (letters @ decimal_digits @ ''_'')"
  unfolding in_class_def list_ex_Cons_iff list_ex_Nil_iff class_chars by auto

lemma local_class:
  "in_class [Range CHR ''a'' CHR ''z'', Range CHR ''A'' CHR ''Z'', Range CHR ''0'' CHR ''9'',
             Single CHR ''.'', Single CHR ''_'', Single CHR ''%'', Single CHR ''+'',
             Single CHR ''-''] c
     \<longleftrightarrow> c \<in> set (letters @ decimal_digits @ ''._%+-'')"
  unfolding in_class_def list_ex_Cons_iff list_ex_Nil_iff class_chars by auto

lemma domain_class:
  "in_class [Range CHR ''a'' CHR ''z'', Range CHR ''A'' CHR ''Z'', Range CHR ''0'' CHR ''9'',
             Single CHR ''.'', Single CHR ''-''] c
     \<longleftrightarrow> c \<in> set (letters @ decimal_digits @ ''.-'')"
  unfolding in_class_def list_ex_Cons_iff list_ex_Nil_iff class_chars by auto

lemma letter_class:
  "in_class [Range CHR ''a'' CHR ''z'', Range CHR ''A'' CHR ''Z''] c \<longleftrightarrow> c \<in> set letters"
  unfolding in_class_def list_ex_Cons_iff list_ex_Nil_iff class_chars by auto

lemma username_regex_spec: "regex_match username_regex s = spec_username s"
proof -
  have "regex_match username_regex s
          \<longleftrightarrow> (\<exists>u v. s = u @ v \<and> 3 \<le> length u \<and> length u \<le> 32
                 \<and> (\<forall>c \<in> set u. c \<in> set (letters @ decimal_digits @ ''_'')) \<and> v = [])"
    unfolding username_regex_def regex_match_Cls word_class by simp
  also have "\<dots> \<longleftrightarrow> spec_username s"
    unfolding spec_username_def by auto
  finally show ?thesis .
qed

lemma email_regex_spec: "regex_match email_regex s = spec_email s"
proof -
  have "regex_match email_regex s
          \<longleftrightarrow> (\<exists>u v. s = u @ v \<and> 1 \<le> length u
                 \<and> (\<forall>c \<in> set u. c \<in> set (letters @ decimal_digits @ ''._%+-''))
                 \<and> (\<exists>v1. v = CHR ''@'' # v1
                      \<and> (\<exists>d w. v1 = d @ w \<and> 1 \<le> length d
                             \<and> (\<forall>c \<in> set d. c \<in> set (letters @ decimal_digits @ ''.-''))
                             \<and> (\<exists>w1. w = CHR ''.'' # w1
                                  \<and> (\<exists>t x. w1 = t @ x \<and> 2 \<le> length t
                                         \<and> (\<forall>c \<in> set t. c \<in> set letters) \<and> x = [])))))"
    unfolding email_regex_def regex_match_Cls regex_match_Lit local_class domain_class letter_class
    by simp
  also have "\<dots> \<longleftrightarrow> spec_email s"
    unfolding spec_email_def
  proof
    assume "\<exists>u v. s = u @ v \<and> 1 \<le> length u
                 \<and> (\<forall>c \<in> set u. c \<in> set (letters @ decimal_digits @ ''._%+-''))
                 \<and> (\<exists>v1. v = CHR ''@'' # v1
                      \<and> (\<exists>d w. v1 = d @ w \<and> 1 \<le> length d
                             \<and> (\<forall>c \<in> set d. c \<in> set (letters @ decimal_digits @ ''.-''))
                             \<and> (\<exists>w1. w = CHR ''.'' # w1
                                  \<and> (\<exists>t x. w1 = t @ x \<and> 2 \<le> length t
                                         \<and> (\<forall>c \<in> set t. c \<in> set letters) \<and> x = []))))"
    then obtain u d t where
      "s = u @ CHR ''@'' # d @ CHR ''.'' # t" "1 \<le> length u"
      "\<forall>c \<in> set u. c \<in> set (letters @ decimal_digits @ ''._%+-'')"
      "1 \<le> length d" "\<forall>c \<in> set d. c \<in> set (letters @ decimal_digits @ ''.-'')"
      "2 \<le> length t" "\<forall>c \<in> set t. c \<in> set letters"
      by auto
    then have "s = u @ ''@'' @ d @ ''.'' @ t \<and> u \<noteq> []
        \<and> set u \<subseteq> set (letters @ decimal_digits @ ''._%+-'')
        \<and> d \<noteq> [] \<and> set d \<subseteq> set (letters @ decimal_digits @ ''.-'')
        \<and> 2 \<le> length t \<and> set t \<subseteq> set letters"
      by (auto simp del: set_append)
    then show "\<exists>local domain tld. s = local @ ''@'' @ domain @ ''.'' @ tld \<and> local \<noteq> []
        \<and> set local \<subseteq> set (letters @ decimal_digits @ ''._%+-'')
        \<and> domain \<noteq> [] \<and> set domain \<subseteq> set (letters @ decimal_digits @ ''.-'')
        \<and> 2 \<le> length tld \<and> set tld \<subseteq> set letters"
      by blast
  next
    assume "\<exists>local domain tld. s = local @ ''@'' @ domain @ ''.'' @ tld \<and> local \<noteq> []
        \<and> set local \<subseteq> set (letters @ decimal_digits @ ''._%+-'')
        \<and> domain \<noteq> [] \<and> set domain \<subseteq> set (letters @ decimal_digits @ ''.-'')
        \<and> 2 \<le> length tld \<and> set tld \<subseteq> set letters"
    then obtain u d t where h:
      "s = u @ ''@'' @ d @ ''.'' @ t" "u \<noteq> []"
      "set u \<subseteq> set (letters @ decimal_digits @ ''._%+-'')"
      "d \<noteq> []" "set d \<subseteq> set (letters @ decimal_digits @ ''.-'')"
      "2 \<le> length t" "set t \<subseteq> set letters"
      by blast
    have lu: "1 \<le> length u" using h(2) by (cases u) simp_all
    have ld: "1 \<le> length d" using h(4) by (cases d) simp_all
    have t4: "\<exists>t' x. t = t' @ x \<and> 2 \<le> length t' \<and> (\<forall>c \<in> set t'. c \<in> set letters) \<and> x = []"
      using h(6,7) by auto
    have t3: "\<exists>w1. CHR ''.'' # t = CHR ''.'' # w1
           \<and> (\<exists>t' x. w1 = t' @ x \<and> 2 \<le> length t' \<and> (\<forall>c \<in> set t'. c \<in> set letters) \<and> x = [])"
      using t4 by blast
    have t2: "\<exists>d' w. d @ CHR ''.'' # t = d' @ w \<and> 1 \<le> length d'
           \<and> (\<forall>c \<in> set d'. c \<in> set (letters @ decimal_digits @ ''.-''))
           \<and> (\<exists>w1. w = CHR ''.'' # w1
               \<and> (\<exists>t' x. w1 = t' @ x \<and> 2 \<le> length t' \<and> (\<forall>c \<in> set t'. c \<in> set letters) \<and> x = []))"
      using t3 ld h(5) by blast
    have t1: "\<exists>v1. CHR ''@'' # d @ CHR ''.'' # t = CHR ''@'' # v1
           \<and> (\<exists>d' w. v1 = d' @ w \<and> 1 \<le> length d'
           \<and> (\<forall>c \<in> set d'. c \<in> set (letters @ decimal_digits @ ''.-''))
           \<and> (\<exists>w1. w = CHR ''.'' # w1
               \<and> (\<exists>t' x. w1 = t' @ x \<and> 2 \<le> length t' \<and> (\<forall>c \<in> set t'. c \<in> set letters) \<and> x = [])))"
      using t2 by blast
    have s: "s = u @ CHR ''@'' # d @ CHR ''.'' # t" using h(1) by simp
    show "\<exists>u v. s = u @ v \<and> 1 \<le> length u
                 \<and> (\<forall>c \<in> set u. c \<in> set (letters @ decimal_digits @ ''._%+-''))
                 \<and> (\<exists>v1. v = CHR ''@'' # v1
                      \<and> (\<exists>d w. v1 = d @ w \<and> 1 \<le> length d
                             \<and> (\<forall>c \<in> set d. c \<in> set (letters @ decimal_digits @ ''.-''))
                             \<and> (\<exists>w1. w = CHR ''.'' # w1
                                  \<and> (\<exists>t x. w1 = t @ x \<and> 2 \<le> length t
                                         \<and> (\<forall>c \<in> set t. c \<in> set letters) \<and> x = []))))"
      using s lu h(3) t1 by blast
  qed
  finally show ?thesis .
qed


section \<open>command\_register\<close>

lemma private_loop_frame:
  "dir (snd (private_loop p mt uid cs acc w)) = dir w
   \<and> auth (snd (private_loop p mt uid cs acc w)) = auth w
   \<and> (\<exists>evs. events (snd (private_loop p mt uid cs acc w)) = events w @ evs
             \<and> (\<forall>e \<in> set evs. \<exists>c u. e = Call_getChatMember c u))"
proof (induction cs arbitrary: acc w)
  case Nil
  show ?case by simp
next
  case (Cons a cs)
  obtain m gc gn where acc: "acc = (m, gc, gn)" by (cases acc) auto
  let ?w' = "emit (Call_getChatMember (chat a) uid) w"
  show ?case
  proof (cases "getChatMember p (chat a) uid")
    case (Inl e)
    have "events ?w' = events w @ [Call_getChatMember (chat a) uid]" by simp
    then show ?thesis using Inl acc by (simp add: Let_def)
  next
    case (Inr status)
    define acc' where "acc' = (if m < mt status then (mt status, chat a, nickname a) else (m, gc, gn))"
    have step: "private_loop p mt uid (a # cs) acc w = private_loop p mt uid cs acc' ?w'"
      using Inr acc by (simp add: Let_def acc'_def)
    from Cons.IH [of acc' ?w'] obtain evs where
      ih: "dir (snd (private_loop p mt uid cs acc' ?w')) = dir ?w'"
          "auth (snd (private_loop p mt uid cs acc' ?w')) = auth ?w'"
          "events (snd (private_loop p mt uid cs acc' ?w')) = events ?w' @ evs"
          "\<forall>e \<in> set evs. \<exists>c u. e = Call_getChatMember c u"
      by blast
    have "events (snd (private_loop p mt uid (a # cs) acc w))
            = events w @ (Call_getChatMember (chat a) uid # evs)"
      using step ih(3) by simp
    moreover have "\<forall>e \<in> set (Call_getChatMember (chat a) uid # evs). \<exists>c u. e = Call_getChatMember c u"
      using ih(4) by simp
    ultimately show ?thesis using step ih(1,2) by (metis auth_emit dir_emit)
  qed
qed

lemma auth_status_frame:
  "dir (snd (auth_status p cfg ctx w)) = dir w
   \<and> auth (snd (auth_status p cfg ctx w)) = auth w
   \<and> (\<exists>evs. events (snd (auth_status p cfg ctx w)) = events w @ evs
             \<and> (\<forall>e \<in> set evs. \<exists>c u. e = Call_getChatMember c u))"
proof -
  have triv: "dir w = dir w \<and> auth w = auth w
      \<and> (\<exists>evs. events w = events w @ evs \<and> (\<forall>e \<in> set evs. \<exists>c u. e = Call_getChatMember c u))"
    by simp
  have one: "\<And>c u. dir (emit (Call_getChatMember c u) w) = dir w
      \<and> auth (emit (Call_getChatMember c u) w) = auth w
      \<and> (\<exists>evs. events (emit (Call_getChatMember c u) w) = events w @ evs
             \<and> (\<forall>e \<in> set evs. \<exists>c u. e = Call_getChatMember c u))"
    by simp
  show ?thesis
  proof (cases "ctx_from ctx")
    case None
    then show ?thesis using triv by (simp add: auth_status_def)
  next
    case (Some user)
    show ?thesis
    proof (cases "ctx_chat ctx")
      case None
      then show ?thesis using Some triv by (simp add: auth_status_def)
    next
      case (Some ch)
      note ch = Some
      show ?thesis
      proof (cases "chat_type ch = Group \<or> chat_type ch = Supergroup")
        case True
        show ?thesis
        proof (cases "find (\<lambda>x. chat x = chat_id ch) (authorized_chats cfg)")
          case None
          then show ?thesis using \<open>ctx_from ctx = Some user\<close> ch True triv
            by (simp add: auth_status_def)
        next
          case (Some good)
          have "snd (auth_status p cfg ctx w) = emit (Call_getChatMember (chat_id ch) (tg_id user)) w"
            using \<open>ctx_from ctx = Some user\<close> ch True Some
            by (auto simp: auth_status_def Let_def split: sum.splits)
          then show ?thesis using one by simp
        qed
      next
        case False
        show ?thesis
        proof (cases "chat_type ch = Private")
          case True
          have "snd (auth_status p cfg ctx w)
                  = snd (private_loop p (member_types cfg) (tg_id user) (authorized_chats cfg)
                           (- 1, - 1, '''') w)"
            using \<open>ctx_from ctx = Some user\<close> ch True
            by (auto simp: auth_status_def split: sum.splits prod.splits)
          then show ?thesis using private_loop_frame by simp
        next
          case F: False
          then show ?thesis using \<open>ctx_from ctx = Some user\<close> ch False triv
            by (simp add: auth_status_def)
        qed
      qed
    qed
  qed
qed

lemma attach_outcome_Some: "attach_outcome st = Some y \<Longrightarrow> y = Inr ()"
  by (simp add: attach_outcome_def split: if_splits)

lemma snd_get_user_by_id: "snd (get_user_by_id gql u w) = emit (Call_get_user_by_id u) w"
  by (simp add: get_user_by_id_def Let_def split: sum.splits)

lemma snd_get_user_by_telegram_id:
  "snd (get_user_by_telegram_id gql t w) = emit (Call_get_user_by_telegram_id t) w"
  by (simp add: get_user_by_telegram_id_def Let_def split: sum.splits list.splits)

lemma fst_get_user_by_telegram_id_emit:
  "fst (get_user_by_telegram_id gql t (emit e w)) = fst (get_user_by_telegram_id gql t w)"
  by (simp add: get_user_by_telegram_id_def Let_def split: sum.splits list.splits)

lemma register_try_fst:
  "fst (register_try p cfg user ch username email schedule w) = Some (Inr ())
   \<or> fst (register_try p cfg user ch username email schedule w) = None"
  by (auto simp: register_try_def Let_def split: prod.splits sum.splits option.splits
        dest: attach_outcome_Some)

lemma command_register_privileged:
  assumes "ctx_from ctx = Some user" and "ctx_chat ctx = Some ch" and "chat_type ch = Private"
      and "auth_status p cfg ctx w = (Inr (Privileged l g n), w0)"
  shows "command_register p cfg ctx schedule w =
     (case map_option (\<lambda>t. split t CHR '' '') (ctx_text ctx) of
        None \<Rightarrow> (Some (Inl (CommandArgsError ''Invalid number of arguments'')), w0)
      | Some args \<Rightarrow>
          (case args of
             [command, username, email] \<Rightarrow>
               if \<not> regex_match username_regex username
               then (Some (Inl (CommandArgsError ''Invalid username'')), w0)
               else if \<not> regex_match email_regex email
               then (Some (Inl (CommandArgsError ''Invalid email'')), w0)
               else register_try p cfg user ch username email schedule w0
           | _ \<Rightarrow> (Some (Inl (CommandArgsError ''Invalid number of arguments'')), w0)))"
  using assms by (simp add: command_register_def)

lemma three_tokens: "length xs = 3 \<longleftrightarrow> (\<exists>a b c. xs = [a, b, c])"
  by (cases xs; cases "tl xs"; cases "tl (tl xs)"; cases "tl (tl (tl xs))") auto

lemma ex_auth_status:
  "auth_status (ex_platform flag) ex_cfg (ex_ctx t) w
     = (Inr (Privileged 5 (- 1002) ''B''),
        emit (Call_getChatMember (- 1002) 42) (emit (Call_getChatMember (- 1001) 42) w))"
  by (simp add: auth_status_def ex_ctx_def ex_cfg_def ex_platform_def ex_getChatMember_def
        chat_A_def chat_B_def ex_user_def ex_member_types_def Let_def)

lemma ex_ctx_fields:
  "ctx_from (ex_ctx t) = Some ex_user"
  "ctx_chat (ex_ctx t) = Some \<lparr>chat_id = 42, chat_type = Private\<rparr>"
  "ctx_text (ex_ctx t) = t"
  by (simp_all add: ex_ctx_def)

text \<open>
  C10.  For an identified caller in a private chat whom \<open>auth_status\<close> finds privileged,
  \<open>command_register\<close> fails with the CommandArgsError "Invalid number of arguments"
  exactly when the message has no text or splitting the text at single spaces does not
  give three tokens.  The number of tokens is the number of spaces plus one, so a text
  with two spaces in a row between the arguments, or with a further token after the
  email, is rejected.  When it fails so, the world is the one that \<open>auth_status\<close> left:
  the directory is untouched and only membership queries have been made.
\<close>

theorem register_argument_count:
  assumes "ctx_from ctx = Some user" and "ctx_chat ctx = Some ch" and "chat_type ch = Private"
      and "auth_status p cfg ctx w = (Inr (Privileged l g n), w0)"
  shows "((command_register p cfg ctx schedule w
             = (Some (Inl (CommandArgsError ''Invalid number of arguments'')), w0))
          \<longleftrightarrow> (ctx_text ctx = None
               \<or> (\<exists>t. ctx_text ctx = Some t \<and> length (split t CHR '' '') \<noteq> 3)))
       \<and> length (split t CHR '' '') = Suc (count_list t CHR '' '')
       \<and> (ctx_text ctx = Some (c @ ''  '' @ u @ '' '' @ e) \<longrightarrow>
            command_register p cfg ctx schedule w
              = (Some (Inl (CommandArgsError ''Invalid number of arguments'')), w0))
       \<and> (ctx_text ctx = Some (c @ '' '' @ u @ '' '' @ e @ '' '' @ x) \<longrightarrow>
            command_register p cfg ctx schedule w
              = (Some (Inl (CommandArgsError ''Invalid number of arguments'')), w0))
       \<and> dir w0 = dir w \<and> auth w0 = auth w
       \<and> (\<exists>evs. events w0 = events w @ evs \<and> (\<forall>e \<in> set evs. \<exists>c u. e = Call_getChatMember c u))"
proof -
  note cr = command_register_privileged [OF assms, of schedule]
  have iff: "(command_register p cfg ctx schedule w
             = (Some (Inl (CommandArgsError ''Invalid number of arguments'')), w0))
          \<longleftrightarrow> (ctx_text ctx = None
               \<or> (\<exists>t. ctx_text ctx = Some t \<and> length (split t CHR '' '') \<noteq> 3))"
  proof (cases "ctx_text ctx")
    case None
    then show ?thesis using cr by simp
  next
    case (Some t')
    show ?thesis
    proof (cases "length (split t' CHR '' '') = 3")
      case True
      then obtain a b c' where abc: "split t' CHR '' '' = [a, b, c']"
        unfolding three_tokens by blast
      have "command_register p cfg ctx schedule w
              \<noteq> (Some (Inl (CommandArgsError ''Invalid number of arguments'')), w0)"
      proof (cases "regex_match username_regex b")
        case False
        then show ?thesis using cr Some abc by simp
      next
        case T1: True
        show ?thesis
        proof (cases "regex_match email_regex c'")
          case False
          then show ?thesis using cr Some abc T1 by simp
        next
          case T2: True
          have "command_register p cfg ctx schedule w = register_try p cfg user ch b c' schedule w0"
            using cr Some abc T1 T2 by simp
          then show ?thesis using register_try_fst [of p cfg user ch b c' schedule w0]
            by (metis fst_conv option.distinct(1) option.inject sum.distinct(1))
        qed
      qed
      then show ?thesis using Some True by simp
    next
      case False
      then have "command_register p cfg ctx schedule w
              = (Some (Inl (CommandArgsError ''Invalid number of arguments'')), w0)"
        using cr Some unfolding three_tokens by (auto split: list.splits)
      then show ?thesis using Some False by simp
    qed
  qed
  have len: "\<And>s. length (split s CHR '' '') = Suc (count_list s CHR '' '')"
    by (rule length_split)
  have "length (split (c @ ''  '' @ u @ '' '' @ e) CHR '' '') \<noteq> 3"
    unfolding len by simp
  then have two: "ctx_text ctx = Some (c @ ''  '' @ u @ '' '' @ e) \<longrightarrow>
            command_register p cfg ctx schedule w
              = (Some (Inl (CommandArgsError ''Invalid number of arguments'')), w0)"
    using iff by blast
  have "length (split (c @ '' '' @ u @ '' '' @ e @ '' '' @ x) CHR '' '') \<noteq> 3"
    unfolding len by simp
  then have extra: "ctx_text ctx = Some (c @ '' '' @ u @ '' '' @ e @ '' '' @ x) \<longrightarrow>
            command_register p cfg ctx schedule w
              = (Some (Inl (CommandArgsError ''Invalid number of arguments'')), w0)"
    using iff by blast
  have fr: "dir w0 = dir w \<and> auth w0 = auth w
       \<and> (\<exists>evs. events w0 = events w @ evs \<and> (\<forall>e \<in> set evs. \<exists>c u. e = Call_getChatMember c u))"
    using auth_status_frame [of p cfg ctx w] assms(4) by simp
  from iff len [of t] two extra fr show ?thesis by blast
qed

theorem register_argument_count_witness:
  "command_register (ex_platform (\<lambda>u g. True)) ex_cfg
       (ex_ctx (Some ''/register  alice alice@example.com'')) [] (ex_world (Str ''tok''))
     = (Some (Inl (CommandArgsError ''Invalid number of arguments'')),
        emit (Call_getChatMember (- 1002) 42)
          (emit (Call_getChatMember (- 1001) 42) (ex_world (Str ''tok''))))
   \<and> command_register (ex_platform (\<lambda>u g. True)) ex_cfg
       (ex_ctx (Some ''/register alice alice@example.com now'')) [] (ex_world (Str ''tok''))
     = (Some (Inl (CommandArgsError ''Invalid number of arguments'')),
        emit (Call_getChatMember (- 1002) 42)
          (emit (Call_getChatMember (- 1001) 42) (ex_world (Str ''tok''))))
   \<and> command_register (ex_platform (\<lambda>u g. True)) ex_cfg
       (ex_ctx (Some ''/register alice alice@example.com'')) [] (ex_world (Str ''tok''))
     \<noteq> (Some (Inl (CommandArgsError ''Invalid number of arguments'')),
        emit (Call_getChatMember (- 1002) 42)
          (emit (Call_getChatMember (- 1001) 42) (ex_world (Str ''tok''))))"
proof -
  have h3: "chat_type \<lparr>chat_id = 42, chat_type = Private\<rparr> = Private" by simp
  let ?P = "ex_platform (\<lambda>u g. True)" and ?W = "ex_world (Str ''tok'')"
  have inst: "\<And>T. ((command_register ?P ex_cfg (ex_ctx T) [] ?W
             = (Some (Inl (CommandArgsError ''Invalid number of arguments'')),
                emit (Call_getChatMember (- 1002) 42) (emit (Call_getChatMember (- 1001) 42) ?W)))
          \<longleftrightarrow> (T = None \<or> (\<exists>t. T = Some t \<and> length (split t CHR '' '') \<noteq> 3)))"
    using register_argument_count
            [OF ex_ctx_fields(1) ex_ctx_fields(2) h3 ex_auth_status [of "\<lambda>u g. True" _ ?W],
             where schedule = "[]"]
    unfolding ex_ctx_fields(3) by blast
  have len: "\<And>t. length (split t CHR '' '') = Suc (count_list t CHR '' '')"
    by (rule length_split)
  have a: "''/register  alice alice@example.com'' = ''/register'' @ ''  '' @ ''alice'' @ '' '' @ ''alice@example.com''"
    by simp
  have b: "''/register alice alice@example.com now''
             = ''/register'' @ '' '' @ ''alice'' @ '' '' @ ''alice@example.com'' @ '' '' @ ''now''"
    by simp
  have c: "length (split ''/register alice alice@example.com'' CHR '' '') = 3"
    by code_simp
  have r1: "command_register (ex_platform (\<lambda>u g. True)) ex_cfg
       (ex_ctx (Some ''/register  alice alice@example.com'')) [] (ex_world (Str ''tok''))
     = (Some (Inl (CommandArgsError ''Invalid number of arguments'')),
        emit (Call_getChatMember (- 1002) 42)
          (emit (Call_getChatMember (- 1001) 42) (ex_world (Str ''tok''))))"
    unfolding inst a len by simp
  have r2: "command_register (ex_platform (\<lambda>u g. True)) ex_cfg
       (ex_ctx (Some ''/register alice alice@example.com now'')) [] (ex_world (Str ''tok''))
     = (Some (Inl (CommandArgsError ''Invalid number of arguments'')),
        emit (Call_getChatMember (- 1002) 42)
          (emit (Call_getChatMember (- 1001) 42) (ex_world (Str ''tok''))))"
    unfolding inst b len by simp
  have r3: "command_register (ex_platform (\<lambda>u g. True)) ex_cfg
       (ex_ctx (Some ''/register alice alice@example.com'')) [] (ex_world (Str ''tok''))
     \<noteq> (Some (Inl (CommandArgsError ''Invalid number of arguments'')),
        emit (Call_getChatMember (- 1002) 42)
          (emit (Call_getChatMember (- 1001) 42) (ex_world (Str ''tok''))))"
    unfolding inst using c by simp
  from r1 r2 r3 show ?thesis by blast
qed

theorem register_argument_count_gates_counterexample:
  "length (split ''/register'' CHR '' '') = 1
   \<and> fst (command_register (ex_platform accept_all) ex_cfg ex_unprivileged_ctx []
            (ex_world (Str ''tok''))) = Some (Inr ())
   \<and> events (snd (command_register (ex_platform accept_all) ex_cfg ex_unprivileged_ctx []
                    (ex_world (Str ''tok''))))
       = [Call_getChatMember (- 1001) 43, Call_getChatMember (- 1002) 43,
          Reply ''You are not privileged to use this command'']
   \<and> command_register (ex_platform accept_all) ex_cfg ex_supergroup_ctx [] (ex_world (Str ''tok''))
       = (Some (Inl (CommandArgsError ''Use this command in a private chat.'')),
          ex_world (Str ''tok''))"
proof -
  have a: "length (split ''/register'' CHR '' '') = 1"
    by (simp add: split_def)
  have st: "auth_status (ex_platform accept_all) ex_cfg ex_unprivileged_ctx (ex_world (Str ''tok''))
              = (Inr StatusNone,
                 emit (Call_getChatMember (- 1002) 43)
                   (emit (Call_getChatMember (- 1001) 43) (ex_world (Str ''tok''))))"
    by (simp add: auth_status_def ex_unprivileged_ctx_def ex_cfg_def ex_platform_def
          ex_getChatMember_def chat_A_def chat_B_def ex_member_types_def Let_def)
  have b: "command_register (ex_platform accept_all) ex_cfg ex_unprivileged_ctx []
             (ex_world (Str ''tok''))
           = (Some (Inr ()),
              emit (Reply ''You are not privileged to use this command'')
                (emit (Call_getChatMember (- 1002) 43)
                   (emit (Call_getChatMember (- 1001) 43) (ex_world (Str ''tok'')))))"
    unfolding command_register_def st
    by (simp add: ex_unprivileged_ctx_def return_reply_def ex_platform_def)
  have c: "command_register (ex_platform accept_all) ex_cfg ex_supergroup_ctx []
             (ex_world (Str ''tok''))
           = (Some (Inl (CommandArgsError ''Use this command in a private chat.'')),
              ex_world (Str ''tok''))"
    by (simp add: command_register_def ex_supergroup_ctx_def)
  show ?thesis unfolding b c using a by (simp add: ex_world_def)
qed

text \<open>
  C4.  For an identified, privileged caller in a private chat whose text splits into
  three tokens: \<open>command_register\<close> fails with the CommandArgsError "Invalid username" when
  the second token is not between 3 and 32 letters, digits and underscores; otherwise it
  fails with "Invalid email" when the third token is not of the form
  \<open>local@domain.tld\<close>; otherwise it goes on to the lookups and raises no
  CommandArgsError.  The username pattern of the code accepts exactly the strings of the
  pattern of the specification.
\<close>

theorem register_validates_username_then_email:
  assumes "ctx_from ctx = Some user" and "ctx_chat ctx = Some ch" and "chat_type ch = Private"
      and "auth_status p cfg ctx w = (Inr (Privileged l g n), w0)"
      and "ctx_text ctx = Some t" and "split t CHR '' '' = [command, username, email]"
  shows "(\<not> spec_username username \<longrightarrow>
            command_register p cfg ctx schedule w
              = (Some (Inl (CommandArgsError ''Invalid username'')), w0))
       \<and> (spec_username username \<and> \<not> spec_email email \<longrightarrow>
            command_register p cfg ctx schedule w
              = (Some (Inl (CommandArgsError ''Invalid email'')), w0))
       \<and> (spec_username username \<and> spec_email email \<longrightarrow>
            command_register p cfg ctx schedule w
              = register_try p cfg user ch username email schedule w0
            \<and> (\<forall>m. fst (command_register p cfg ctx schedule w) \<noteq> Some (Inl (CommandArgsError m))))
       \<and> (\<forall>s. regex_match username_regex s = spec_username s)"
proof -
  note cr = command_register_privileged [OF assms(1-4), of schedule]
  have a: "\<not> spec_username username \<longrightarrow>
            command_register p cfg ctx schedule w
              = (Some (Inl (CommandArgsError ''Invalid username'')), w0)"
    using cr assms(5,6) by (simp add: username_regex_spec)
  have b: "spec_username username \<and> \<not> spec_email email \<longrightarrow>
            command_register p cfg ctx schedule w
              = (Some (Inl (CommandArgsError ''Invalid email'')), w0)"
    using cr assms(5,6) by (simp add: username_regex_spec email_regex_spec)
  have c1: "spec_username username \<and> spec_email email \<longrightarrow>
            command_register p cfg ctx schedule w
              = register_try p cfg user ch username email schedule w0"
    using cr assms(5,6) by (simp add: username_regex_spec email_regex_spec)
  have c2: "\<forall>m. fst (register_try p cfg user ch username email schedule w0)
                 \<noteq> Some (Inl (CommandArgsError m))"
    using register_try_fst [of p cfg user ch username email schedule w0] by auto
  from a b c1 c2 username_regex_spec show ?thesis by simp
qed

lemma ex_split: "split ''/register al alice@example.com'' CHR '' '' = [''/register'', ''al'', ''alice@example.com'']"
  "split ''/register alice alice@example'' CHR '' '' = [''/register'', ''alice'', ''alice@example'']"
  "split ''/register alice alice@example.com'' CHR '' '' = [''/register'', ''alice'', ''alice@example.com'']"
  by (simp_all add: split_def)

lemma ex_patterns:
  "\<not> spec_username ''al''" "spec_username ''alice''"
  "\<not> spec_email ''alice@example''" "spec_email ''alice@example.com''"
  unfolding username_regex_spec [symmetric] email_regex_spec [symmetric] by code_simp+

theorem register_validates_username_then_email_witness:
  "command_register (ex_platform (\<lambda>u g. True)) ex_cfg
       (ex_ctx (Some ''/register al alice@example.com'')) [] (ex_world (Str ''tok''))
     = (Some (Inl (CommandArgsError ''Invalid username'')),
        emit (Call_getChatMember (- 1002) 42)
          (emit (Call_getChatMember (- 1001) 42) (ex_world (Str ''tok''))))
   \<and> command_register (ex_platform (\<lambda>u g. True)) ex_cfg
       (ex_ctx (Some ''/register alice alice@example'')) [] (ex_world (Str ''tok''))
     = (Some (Inl (CommandArgsError ''Invalid email'')),
        emit (Call_getChatMember (- 1002) 42)
          (emit (Call_getChatMember (- 1001) 42) (ex_world (Str ''tok''))))
   \<and> (\<forall>m. fst (command_register (ex_platform (\<lambda>u g. True)) ex_cfg
                 (ex_ctx (Some ''/register alice alice@example.com'')) [] (ex_world (Str ''tok'')))
            \<noteq> Some (Inl (CommandArgsError m)))"
proof -
  let ?P = "ex_platform (\<lambda>u g. True)" and ?W = "ex_world (Str ''tok'')"
  have h3: "chat_type \<lparr>chat_id = 42, chat_type = Private\<rparr> = Private" by simp
  note inst = register_validates_username_then_email
                [OF ex_ctx_fields(1) ex_ctx_fields(2) h3 ex_auth_status [of "\<lambda>u g. True" _ ?W]
                    ex_ctx_fields(3), where schedule = "[]"]
  from inst [OF ex_split(1)] inst [OF ex_split(2)] inst [OF ex_split(3)] ex_patterns
  show ?thesis by blast
qed

text \<open>
  C5.  For an identified, privileged caller in a private chat with a valid username and
  email: when the lookup by identifier finds a user, \<open>command_register\<close> returns normally
  after the reply "User ... already exists."; when it finds none and the lookup by the
  caller's Telegram identity finds a user, it returns normally after the reply "This
  telegram account is already connected to user ...".  In both cases the world differs
  from the one after the privilege check only by the lookups and the reply: no
  \<open>create_user\<close>, no \<open>add_to_group\<close>, and the directory is the same.
\<close>

theorem register_duplicate_no_mutation:
  assumes "ctx_from ctx = Some user" and "ctx_chat ctx = Some ch" and "chat_type ch = Private"
      and "auth_status p cfg ctx w = (Inr (Privileged l g n), w0)"
      and "ctx_text ctx = Some t" and "split t CHR '' '' = [command, username, email]"
      and "spec_username username" and "spec_email email"
  shows "(fst (get_user_by_id (gql_client p) username w0) = Inr (Some existing_user) \<longrightarrow>
            command_register p cfg ctx schedule w
              = (Some (Inr ()),
                 w0\<lparr>events := events w0 @ [Call_get_user_by_id username,
                                             Reply (exists_message username)]\<rparr>))
       \<and> (fst (get_user_by_id (gql_client p) username w0) = Inr None
            \<and> fst (get_user_by_telegram_id (gql_client p) (toString (unsafe_toString p) (tg_id user)) w0)
                = Inr (Some existing_connect) \<longrightarrow>
            command_register p cfg ctx schedule w
              = (Some (Inr ()),
                 w0\<lparr>events := events w0 @ [Call_get_user_by_id username,
                                             Call_get_user_by_telegram_id (toString (unsafe_toString p) (tg_id user)),
                                             Reply (connected_message existing_connect)]\<rparr>))"
proof -
  have cr: "command_register p cfg ctx schedule w
              = register_try p cfg user ch username email schedule w0"
    using command_register_privileged [OF assms(1-4), of schedule] assms(5-8)
    by (simp add: username_regex_spec email_regex_spec)
  let ?w1 = "emit (Call_get_user_by_id username) w0"
  let ?w2 = "emit (Call_get_user_by_telegram_id (toString (unsafe_toString p) (tg_id user))) ?w1"
  have a: "fst (get_user_by_id (gql_client p) username w0) = Inr (Some existing_user) \<longrightarrow>
            register_try p cfg user ch username email schedule w0
              = (Some (Inr ()),
                 w0\<lparr>events := events w0 @ [Call_get_user_by_id username,
                                             Reply (exists_message username)]\<rparr>)"
  proof
    assume f: "fst (get_user_by_id (gql_client p) username w0) = Inr (Some existing_user)"
    have g1: "get_user_by_id (gql_client p) username w0 = (Inr (Some existing_user), ?w1)"
      using f snd_get_user_by_id [of "gql_client p" username w0] by (simp add: prod_eq_iff)
    have "register_try p cfg user ch username email schedule w0
            = (Some (Inr ()), emit (Reply (exists_message username)) ?w1)"
      by (simp add: register_try_def g1)
    then show "register_try p cfg user ch username email schedule w0
              = (Some (Inr ()),
                 w0\<lparr>events := events w0 @ [Call_get_user_by_id username,
                                             Reply (exists_message username)]\<rparr>)"
      by (simp add: emit_def)
  qed
  have b: "fst (get_user_by_id (gql_client p) username w0) = Inr None
            \<and> fst (get_user_by_telegram_id (gql_client p) (toString (unsafe_toString p) (tg_id user)) w0)
                = Inr (Some existing_connect) \<longrightarrow>
            register_try p cfg user ch username email schedule w0
              = (Some (Inr ()),
                 w0\<lparr>events := events w0 @ [Call_get_user_by_id username,
                                             Call_get_user_by_telegram_id (toString (unsafe_toString p) (tg_id user)),
                                             Reply (connected_message existing_connect)]\<rparr>)"
  proof
    assume "fst (get_user_by_id (gql_client p) username w0) = Inr None
            \<and> fst (get_user_by_telegram_id (gql_client p) (toString (unsafe_toString p) (tg_id user)) w0)
                = Inr (Some existing_connect)"
    then have f1: "fst (get_user_by_id (gql_client p) username w0) = Inr None"
      and f2: "fst (get_user_by_telegram_id (gql_client p) (toString (unsafe_toString p) (tg_id user)) w0)
                = Inr (Some existing_connect)"
      by simp_all
    have g1: "get_user_by_id (gql_client p) username w0 = (Inr None, ?w1)"
      using f1 snd_get_user_by_id [of "gql_client p" username w0] by (simp add: prod_eq_iff)
    have g2: "get_user_by_telegram_id (gql_client p) (toString (unsafe_toString p) (tg_id user)) ?w1
                = (Inr (Some existing_connect), ?w2)"
      using f2 snd_get_user_by_telegram_id [of "gql_client p" "toString (unsafe_toString p) (tg_id user)" ?w1]
            fst_get_user_by_telegram_id_emit
              [of "gql_client p" "toString (unsafe_toString p) (tg_id user)" "Call_get_user_by_id username" w0]
      by (simp add: prod_eq_iff)
    have "register_try p cfg user ch username email schedule w0
            = (Some (Inr ()), emit (Reply (connected_message existing_connect)) ?w2)"
      by (simp add: register_try_def g1 g2)
    then show "register_try p cfg user ch username email schedule w0
              = (Some (Inr ()),
                 w0\<lparr>events := events w0 @ [Call_get_user_by_id username,
                                             Call_get_user_by_telegram_id (toString (unsafe_toString p) (tg_id user)),
                                             Reply (connected_message existing_connect)]\<rparr>)"
      by (simp add: emit_def)
  qed
  from a b show ?thesis unfolding cr by blast
qed

theorem register_duplicate_no_mutation_witness:
  "fst (command_register (ex_platform (\<lambda>u g. True)) ex_cfg
          (ex_ctx (Some ''/register alice alice@example.com'')) [] (ex_world_users [ex_alice]))
     = Some (Inr ())
   \<and> events (snd (command_register (ex_platform (\<lambda>u g. True)) ex_cfg
          (ex_ctx (Some ''/register alice alice@example.com'')) [] (ex_world_users [ex_alice])))
     = [Call_getChatMember (- 1001) 42, Call_getChatMember (- 1002) 42,
        Call_get_user_by_id ''alice'', Reply ''User <b>alice</b> already exists.'']
   \<and> dir (snd (command_register (ex_platform (\<lambda>u g. True)) ex_cfg
          (ex_ctx (Some ''/register alice alice@example.com'')) [] (ex_world_users [ex_alice])))
     = \<lparr>dir_users = [ex_alice], dir_members = []\<rparr>
   \<and> fst (command_register (ex_platform (\<lambda>u g. True)) ex_cfg
          (ex_ctx (Some ''/register alice alice@example.com'')) [] (ex_world_users [ex_bob]))
     = Some (Inr ())
   \<and> events (snd (command_register (ex_platform (\<lambda>u g. True)) ex_cfg
          (ex_ctx (Some ''/register alice alice@example.com'')) [] (ex_world_users [ex_bob])))
     = [Call_getChatMember (- 1001) 42, Call_getChatMember (- 1002) 42,
        Call_get_user_by_id ''alice'', Call_get_user_by_telegram_id ''42'',
        Reply ''This telegram account is already connected to user <b>bob</b>.'']
   \<and> dir (snd (command_register (ex_platform (\<lambda>u g. True)) ex_cfg
          (ex_ctx (Some ''/register alice alice@example.com'')) [] (ex_world_users [ex_bob])))
     = \<lparr>dir_users = [ex_bob], dir_members = []\<rparr>"
proof -
  let ?P = "ex_platform (\<lambda>u g. True)"
  let ?T = "Some ''/register alice alice@example.com''"
  let ?A = "ex_world_users [ex_alice]" and ?B = "ex_world_users [ex_bob]"
  let ?Aauth = "emit (Call_getChatMember (- 1002) 42) (emit (Call_getChatMember (- 1001) 42) ?A)"
  let ?Bauth = "emit (Call_getChatMember (- 1002) 42) (emit (Call_getChatMember (- 1001) 42) ?B)"
  have h3: "chat_type \<lparr>chat_id = 42, chat_type = Private\<rparr> = Private" by simp
  have hdr: "headers (ex_am (Str ''tok'')) = Inr ''Bearer tok''" by (simp add: headers_ex_am)
  have a1: "fst (get_user_by_id (gql_client ?P) ''alice'' ?Aauth)
              = Inr (Some \<lparr>lu_id = ''alice'', lu_telegram_id = Some ''7'',
                           lu_email = ''alice@example.org''\<rparr>)"
    by (simp add: get_user_by_id_def Let_def ex_world_users_def hdr ex_platform_def
          spec_backend_def spec_user_def ex_alice_def)
  have b1: "fst (get_user_by_id (gql_client ?P) ''alice'' ?Bauth) = Inr None"
    by (simp add: get_user_by_id_def Let_def ex_world_users_def hdr ex_platform_def
          spec_backend_def spec_user_def ex_bob_def)
  have b2: "fst (get_user_by_telegram_id (gql_client ?P) (toString (unsafe_toString ?P) (tg_id ex_user)) ?Bauth)
              = Inr (Some ''bob'')"
    by (simp add: get_user_by_telegram_id_def Let_def ex_world_users_def hdr ex_platform_def
          spec_backend_def spec_users_def ex_bob_def ex_user_def toString_small)
  have ra: "command_register ?P ex_cfg (ex_ctx ?T) [] ?A
              = (Some (Inr ()),
                 ?Aauth\<lparr>events := events ?Aauth @ [Call_get_user_by_id ''alice'',
                                               Reply (exists_message ''alice'')]\<rparr>)"
    using register_duplicate_no_mutation
            [OF ex_ctx_fields(1) ex_ctx_fields(2) h3 ex_auth_status [of "\<lambda>u g. True" ?T ?A]
                ex_ctx_fields(3) ex_split(3) ex_patterns(2) ex_patterns(4), where schedule = "[]"]
          a1
    by blast
  have rb: "command_register ?P ex_cfg (ex_ctx ?T) [] ?B
              = (Some (Inr ()),
                 ?Bauth\<lparr>events := events ?Bauth @ [Call_get_user_by_id ''alice'',
                                               Call_get_user_by_telegram_id (toString (unsafe_toString ?P) (tg_id ex_user)),
                                               Reply (connected_message ''bob'')]\<rparr>)"
    using register_duplicate_no_mutation
            [OF ex_ctx_fields(1) ex_ctx_fields(2) h3 ex_auth_status [of "\<lambda>u g. True" ?T ?B]
                ex_ctx_fields(3) ex_split(3) ex_patterns(2) ex_patterns(4), where schedule = "[]"]
          b1 b2
    by blast
  show ?thesis
    unfolding ra rb
    by (simp add: ex_world_users_def exists_message_def connected_message_def ex_user_def toString_small)
qed

section \<open>The concrete deployment, evaluated\<close>




section \<open>The group attachment of command\_register\<close>
















subsection \<open>Every task finishes under the round-robin schedule\<close>









subsection \<open>Two runs against a backend that refuses the group of chat A\<close>


















end
